theory Spec2Isabelle
  imports Main "HOL-Library.AList" "HOL-Library.Sublist" "HOL-Library.Word"
begin

section \<open>Python values and text\<close>

text \<open>
  The helpers of \<^verbatim>\<open>reactive/lib/helpers.py\<close> are dynamically typed: a port is
  \<^verbatim>\<open>None\<close>, a string taken from relation data or an integer; a user name is
  \<^verbatim>\<open>None\<close> or a string. \<open>pyval\<close> holds the three kinds of value that reach them.
  Text is a list of characters, read as code points below 256.
\<close>

datatype pyval = PNone | PStr string | PInt int

text \<open>Truth value of \<^verbatim>\<open>if x:\<close>.\<close>

fun truthy :: "pyval \<Rightarrow> bool" where
  "truthy PNone = False"
| "truthy (PStr s) = (s \<noteq> [])"
| "truthy (PInt i) = (i \<noteq> 0)"

definition digit_char :: "nat \<Rightarrow> char" where
  "digit_char n = ''0123456789'' ! n"

fun show_nat :: "nat \<Rightarrow> string" where
  "show_nat n = (if n < 10 then [digit_char n] else show_nat (n div 10) @ [digit_char (n mod 10)])"

declare show_nat.simps [simp del]

definition show_int :: "int \<Rightarrow> string" where
  "show_int i = (if i < 0 then CHR ''-'' # show_nat (nat (- i)) else show_nat (nat i))"

text \<open>What \<^verbatim>\<open>"{0}".format(x)\<close> inserts for \<open>x\<close>.\<close>

fun format_val :: "pyval \<Rightarrow> string" where
  "format_val PNone = ''None''"
| "format_val (PStr s) = s"
| "format_val (PInt i) = show_int i"

section \<open>\<^verbatim>\<open>build_url_host\<close>\<close>

text \<open>
  \<^verbatim>\<open>
  host = domain
  if port:
      host = "{0}:{1}".format(domain, port)
  if username:
      credentials = username
      if password:
          credentials = "{0}:{1}".format(username, password)
      host = credentials + "@" + host     (written with str.format in the source)
  return host
  \<close>
\<close>

definition build_url_host :: "pyval \<Rightarrow> pyval \<Rightarrow> pyval \<Rightarrow> pyval \<Rightarrow> pyval" where
  "build_url_host domain port username password =
     (let host = domain;
          host = (if truthy port
                  then PStr (format_val domain @ '':'' @ format_val port)
                  else host)
      in if truthy username
         then (let credentials = username;
                   credentials = (if truthy password
                                  then PStr (format_val username @ '':'' @ format_val password)
                                  else credentials)
               in PStr (format_val credentials @ ''@'' @ format_val host))
         else host)"

section \<open>Text operations of the Python library\<close>

text \<open>
  \<^verbatim>\<open>str.isspace\<close> on the code points below 256: tab, line feed, vertical tab, form
  feed, carriage return, the four separators 0x1C..0x1F, space, NEL and the no-break
  space. \<^verbatim>\<open>str.strip()\<close> and \<^verbatim>\<open>str.split()\<close> use this class.
\<close>

definition is_space :: "char \<Rightarrow> bool" where
  "is_space c = ((of_char c :: nat) \<in> {9, 10, 11, 12, 13, 28, 29, 30, 31, 32, 133, 160})"

definition strip :: "string \<Rightarrow> string" where
  "strip s = rev (dropWhile is_space (rev (dropWhile is_space s)))"

text \<open>\<^verbatim>\<open>s.split()\<close>: the maximal runs of characters that are not white space.\<close>

fun split_ws_from :: "string \<Rightarrow> string \<Rightarrow> string list" where
  "split_ws_from cur [] = (if cur = [] then [] else [cur])"
| "split_ws_from cur (c # cs) =
     (if is_space c
      then (if cur = [] then split_ws_from [] cs else cur # split_ws_from [] cs)
      else split_ws_from (cur @ [c]) cs)"

definition split_ws :: "string \<Rightarrow> string list" where
  "split_ws s = split_ws_from [] s"

text \<open>\<^verbatim>\<open>s.split(sep)\<close> for a one-character separator: a cut at every occurrence.\<close>

fun split_on_from :: "char \<Rightarrow> string \<Rightarrow> string \<Rightarrow> string list" where
  "split_on_from sep cur [] = [cur]"
| "split_on_from sep cur (c # cs) =
     (if c = sep then cur # split_on_from sep [] cs else split_on_from sep (cur @ [c]) cs)"

definition split_on :: "char \<Rightarrow> string \<Rightarrow> string list" where
  "split_on sep s = split_on_from sep [] s"

text \<open>\<^verbatim>\<open>s.split(sep, 1)\<close>: a cut at the first occurrence only, if there is one.\<close>

definition split1 :: "char \<Rightarrow> string \<Rightarrow> string list" where
  "split1 sep s =
     (if sep \<in> set s
      then [takeWhile (\<lambda>c. c \<noteq> sep) s, tl (dropWhile (\<lambda>c. c \<noteq> sep) s)]
      else [s])"

text \<open>\<^verbatim>\<open>s.startswith(p)\<close> is \<^const>\<open>prefix\<close> \<open>p s\<close>.\<close>

datatype error =
    ValueError
  | AttributeError
  | TypeError
  | IndexError
  | RenderError
  | CalledProcessError "string list"
  | SocketError string

text \<open>
  The tuple assignment \<^verbatim>\<open>a, b = parts\<close> raises \<^verbatim>\<open>ValueError\<close> unless \<open>parts\<close> has
  exactly two elements.
\<close>

fun unpack2 :: "string list \<Rightarrow> error + string \<times> string" where
  "unpack2 [a, b] = Inr (a, b)"
| "unpack2 _ = Inl ValueError"

text \<open>
  \<^verbatim>\<open>re.match(r"^[a-zA-Z_]+[a-zA-Z0-9_]*=", line)\<close>: at the start of the line, one or
  more letters or underscores, then any number of letters, digits or underscores, then
  an equals sign. The second class contains the first and neither contains \<open>=\<close>, so
  the greedy match below decides the regular expression.
\<close>

definition is_letter_us :: "char \<Rightarrow> bool" where
  "is_letter_us c =
     (let n = (of_char c :: nat) in (65 \<le> n \<and> n \<le> 90) \<or> (97 \<le> n \<and> n \<le> 122) \<or> n = 95)"

definition is_alnum_us :: "char \<Rightarrow> bool" where
  "is_alnum_us c = (is_letter_us c \<or> (let n = (of_char c :: nat) in 48 \<le> n \<and> n \<le> 57))"

definition re_match_variable :: "string \<Rightarrow> bool" where
  "re_match_variable line =
     (takeWhile is_letter_us line \<noteq> [] \<and>
      (case dropWhile is_alnum_us (dropWhile is_letter_us line) of
         [] \<Rightarrow> False
       | c # _ \<Rightarrow> c = CHR ''=''))"

section \<open>The environment file\<close>

text \<open>
  The file is its text. \<^verbatim>\<open>open(filepath).readlines()\<close> reads in text mode with
  universal newlines: a line ends after \<open>\n\<close>, \<open>\r\n\<close> or \<open>\r\<close>, each delivered as
  \<open>\n\<close>; a last line without terminator is delivered as it is.
  \<^verbatim>\<open>writelines\<close> writes the concatenation of the lines. The model takes the file to
  exist and to be readable and writable (the hooks run as root).
\<close>

fun readlines :: "string \<Rightarrow> string list" where
  "readlines [] = []"
| "readlines (c # cs) =
     (if c = CHR 0x0A then [CHR 0x0A] # readlines cs
      else if c = CHR 0x0D
      then [CHR 0x0A] # (case cs of
                           [] \<Rightarrow> []
                         | d # ds \<Rightarrow> if d = CHR 0x0A then readlines ds else readlines cs)
      else (case readlines cs of
              [] \<Rightarrow> [[c]]
            | l # ls \<Rightarrow> (c # l) # ls))"

definition writelines :: "string list \<Rightarrow> string" where
  "writelines ls = concat ls"

text \<open>The file is empty or its last line has a terminator.\<close>

definition newline_terminated :: "string \<Rightarrow> bool" where
  "newline_terminated f = (f = [] \<or> last f = CHR 0x0A \<or> last f = CHR 0x0D)"


text \<open>
  A Python \<^verbatim>\<open>dict\<close> of strings, in insertion order: an association list with
  distinct keys; \<^verbatim>\<open>d[k] = v\<close> is \<^const>\<open>AList.update\<close>, which keeps the place of a
  key already there and appends a new one.
\<close>

type_synonym dict = "(string \<times> string) list"

text \<open>
  \<^verbatim>\<open>
  def get_env(filepath):
      env_vars = {}
      with open(filepath) as env_file:
          for env_line in env_file.readlines():
              if re.match(r"^[a-zA-Z_]+[a-zA-Z0-9_]*=", env_line):
                  key, value = env_line.strip().split('=', 1)
                  env_vars[key] = value
      return env_vars
  \<close>
\<close>

fun get_env_loop :: "string list \<Rightarrow> dict \<Rightarrow> error + dict" where
  "get_env_loop [] env_vars = Inr env_vars"
| "get_env_loop (env_line # rest) env_vars =
     (if re_match_variable env_line
      then (case unpack2 (split1 CHR ''='' (strip env_line)) of
              Inl e \<Rightarrow> Inl e
            | Inr (key, val) \<Rightarrow> get_env_loop rest (AList.update key val env_vars))
      else get_env_loop rest env_vars)"

definition get_env :: "string \<Rightarrow> error + dict" where
  "get_env file = get_env_loop (readlines file) []"

text \<open>
  \<^verbatim>\<open>
  def set_env_values(filepath, incoming_variables):
      env_lines = []
      found = []
      with open(filepath) as env_file:
          for env_line in env_file.readlines():
              key = None
              if re.match(r"^[a-zA-Z_]+[a-zA-Z0-9_]*=", env_line):
                  key, value = env_line.strip().split('=', 1)
              if key in incoming_variables:
                  new_line = "{key}={value}\n".format(key=key, value=incoming_variables[key])
                  found.append(key)
                  env_lines.append(new_line)
              else:
                  env_lines.append(env_line)
      for key, value in incoming_variables.items():
          if key not in found:
              new_line = "{key}={value}\n".format(key=key, value=value)
              env_lines.append(new_line)
      with open(filepath, 'w') as env_file:
          env_file.writelines(env_lines)
      return env_lines
  \<close>
  The first loop carries \<open>env_lines\<close> and \<open>found\<close>; \<open>key\<close> is \<open>None\<close> for a line that
  the pattern does not match.
\<close>

definition new_line :: "string \<Rightarrow> string \<Rightarrow> string" where
  "new_line key val = key @ ''='' @ val @ [CHR 0x0A]"

definition line_key :: "string \<Rightarrow> error + string option" where
  "line_key env_line =
     (if re_match_variable env_line
      then (case unpack2 (split1 CHR ''='' (strip env_line)) of
              Inl e \<Rightarrow> Inl e
            | Inr (key, val) \<Rightarrow> Inr (Some key))
      else Inr None)"

fun set_env_scan ::
  "dict \<Rightarrow> string list \<Rightarrow> string list \<Rightarrow> string list \<Rightarrow> error + string list \<times> string list"
where
  "set_env_scan incoming [] env_lines found = Inr (env_lines, found)"
| "set_env_scan incoming (env_line # rest) env_lines found =
     (case line_key env_line of
        Inl e \<Rightarrow> Inl e
      | Inr None \<Rightarrow> set_env_scan incoming rest (env_lines @ [env_line]) found
      | Inr (Some key) \<Rightarrow>
          (case map_of incoming key of
             Some val \<Rightarrow>
               set_env_scan incoming rest (env_lines @ [new_line key val]) (found @ [key])
           | None \<Rightarrow> set_env_scan incoming rest (env_lines @ [env_line]) found))"

fun set_env_append :: "dict \<Rightarrow> string list \<Rightarrow> string list \<Rightarrow> string list" where
  "set_env_append [] found env_lines = env_lines"
| "set_env_append ((key, val) # items) found env_lines =
     (if key \<notin> set found
      then set_env_append items found (env_lines @ [new_line key val])
      else set_env_append items found env_lines)"

text \<open>The result is the new text of the file and the returned \<open>env_lines\<close>.\<close>

definition set_env_values :: "string \<Rightarrow> dict \<Rightarrow> error + string \<times> string list" where
  "set_env_values file incoming_variables =
     (case set_env_scan incoming_variables (readlines file) [] [] of
        Inl e \<Rightarrow> Inl e
      | Inr (env_lines, found) \<Rightarrow>
          (let env_lines = set_env_append incoming_variables found env_lines
           in Inr (writelines env_lines, env_lines)))"

text \<open>
  \<^verbatim>\<open>
  def delete_env_value(filepath, target_key):
      env_lines = []
      with open(filepath) as env_file:
          for env_line in env_file.readlines():
              if not env_line.startswith(target_key + '='):
                  env_lines.append(env_line)
      with open(filepath, 'w') as env_file:
          env_file.writelines(env_lines)
      return env_lines
  \<close>
\<close>

fun delete_env_scan :: "string \<Rightarrow> string list \<Rightarrow> string list \<Rightarrow> string list" where
  "delete_env_scan target_key [] env_lines = env_lines"
| "delete_env_scan target_key (env_line # rest) env_lines =
     (if \<not> prefix (target_key @ ''='') env_line
      then delete_env_scan target_key rest (env_lines @ [env_line])
      else delete_env_scan target_key rest env_lines)"

definition delete_env_value :: "string \<Rightarrow> string \<Rightarrow> string \<times> string list" where
  "delete_env_value file target_key =
     (let env_lines = delete_env_scan target_key (readlines file) []
      in (writelines env_lines, env_lines))"

text \<open>
  \<^verbatim>\<open>
  def variables_from_string(variables_string):
      variables = {}
      for declaration in variables_string.split():
          variable_name, value = declaration.split('=')
          variables[variable_name] = value
      return variables
  \<close>
\<close>

fun variables_loop :: "string list \<Rightarrow> dict \<Rightarrow> error + dict" where
  "variables_loop [] variables = Inr variables"
| "variables_loop (declaration # rest) variables =
     (case unpack2 (split_on CHR ''='' declaration) of
        Inl e \<Rightarrow> Inl e
      | Inr (variable_name, val) \<Rightarrow>
          variables_loop rest (AList.update variable_name val variables))"

definition variables_from_string :: "string \<Rightarrow> error + dict" where
  "variables_from_string variables_string = variables_loop (split_ws variables_string) []"

section \<open>Privilege demotion\<close>

text \<open>
  \<^verbatim>\<open>
  def demote(user):
      def demotion():
          os.setgid(user.pw_uid)
          os.setuid(user.pw_gid)
      return demotion
  \<close>
  \<open>user\<close> is an entry of the password database. \<open>demote user\<close> is the function
  returned, as a change of the process that runs it before the command starts. A process
  has a user id and a group id; \<^verbatim>\<open>os.setgid\<close> and \<^verbatim>\<open>os.setuid\<close> set them for a
  process running as root (user id 0, as the hooks do) and otherwise succeed only when
  nothing changes.
\<close>

record passwd =
  pw_name :: string
  pw_uid :: nat
  pw_gid :: nat

record process =
  proc_uid :: nat
  proc_gid :: nat

datatype os_error = PermissionError

definition setgid :: "nat \<Rightarrow> process \<Rightarrow> os_error + process" where
  "setgid g p =
     (if proc_uid p = 0 \<or> g = proc_gid p then Inr (p\<lparr>proc_gid := g\<rparr>) else Inl PermissionError)"

definition setuid :: "nat \<Rightarrow> process \<Rightarrow> os_error + process" where
  "setuid u p =
     (if proc_uid p = 0 \<or> u = proc_uid p then Inr (p\<lparr>proc_uid := u\<rparr>) else Inl PermissionError)"

definition demote :: "passwd \<Rightarrow> process \<Rightarrow> os_error + process" where
  "demote user p =
     (case setgid (pw_uid user) p of
        Inl e \<Rightarrow> Inl e
      | Inr p' \<Rightarrow> setuid (pw_gid user) p')"

section \<open>Connection URL\<close>

text \<open>
  \<^verbatim>\<open>urllib.parse.urlunparse((scheme, netloc, url, None, None, None))\<close> with a string
  \<open>scheme\<close> and a string \<open>url\<close>, as in CPython 3.11.10:
  \<^verbatim>\<open>
  # _coerce_args
  for arg in args[1:]:
      if arg and isinstance(arg, str) != str_input:
          raise TypeError("Cannot mix str and non-str arguments")
  # urlunsplit
  if netloc or (scheme and scheme in uses_netloc) or url[:2] == '//':
      if url and url[:1] != '/': url = '/' + url
      url = '//' + (netloc or '') + url
  if scheme:
      url = scheme + ':' + url
  \<close>
  The versions of \<^verbatim>\<open>urlunsplit\<close> differ only where \<open>netloc\<close> is empty.
\<close>

definition uses_netloc :: "string list" where
  "uses_netloc = [[], ''ftp'', ''http'', ''gopher'', ''nntp'', ''telnet'', ''imap'', ''wais'',
     ''file'', ''mms'', ''https'', ''shttp'', ''snews'', ''prospero'', ''rtsp'', ''rtsps'',
     ''rtspu'',
     ''rsync'', ''svn'', ''svn+ssh'', ''sftp'', ''nfs'', ''git'', ''git+ssh'', ''ws'', ''wss'']"

definition urlunsplit :: "string \<Rightarrow> string \<Rightarrow> string \<Rightarrow> string" where
  "urlunsplit scheme netloc url =
     (let url = (if netloc \<noteq> [] \<or> (scheme \<noteq> [] \<and> scheme \<in> set uses_netloc) \<or>
                    take 2 url = ''//''
                 then ''//'' @ netloc @
                      (if url \<noteq> [] \<and> take 1 url \<noteq> ''/'' then ''/'' @ url else url)
                 else url)
      in if scheme \<noteq> [] then scheme @ '':'' @ url else url)"

definition urlunparse :: "string \<Rightarrow> pyval \<Rightarrow> string \<Rightarrow> error + string" where
  "urlunparse scheme netloc url =
     (case netloc of
        PNone \<Rightarrow> Inr (urlunsplit scheme [] url)
      | PStr n \<Rightarrow> Inr (urlunsplit scheme n url)
      | PInt i \<Rightarrow> if i \<noteq> 0 then Inl TypeError else Inr (urlunsplit scheme [] url))"

text \<open>
  A relation record is a dictionary of strings. \<^verbatim>\<open>d.get(k)\<close> is \<^verbatim>\<open>None\<close> for a
  missing key.
\<close>

type_synonym relation = "(string \<times> string) list"

definition dict_get :: "relation \<Rightarrow> string \<Rightarrow> pyval" where
  "dict_get d k = (case map_of d k of None \<Rightarrow> PNone | Some v \<Rightarrow> PStr v)"

definition py_or :: "pyval \<Rightarrow> pyval \<Rightarrow> pyval" where
  "py_or a b = (if truthy a then a else b)"

text \<open>
  \<^verbatim>\<open>
  db_host = db_relation.get('host') or db_relation.get('hostname')
  db_port = db_relation.get('port')
  database_url = urlunparse((db_scheme,
      build_url_host(db_host, db_port, db_relation.get('user'), db_relation.get('password')),
      db_relation.get('database', ''), None, None, None))
  \<close>
\<close>

definition db_host_of :: "relation \<Rightarrow> pyval" where
  "db_host_of db_relation =
     py_or (dict_get db_relation ''host'') (dict_get db_relation ''hostname'')"

definition database_url :: "string \<Rightarrow> relation \<Rightarrow> error + string" where
  "database_url db_scheme db_relation =
     (let db_host = db_host_of db_relation;
          db_port = dict_get db_relation ''port''
      in urlunparse db_scheme
           (build_url_host db_host db_port
              (dict_get db_relation ''user'') (dict_get db_relation ''password''))
           (case map_of db_relation ''database'' of None \<Rightarrow> [] | Some d \<Rightarrow> d))"

text \<open>
  \<^verbatim>\<open>
  db_relation = None
  if postgres_relations:
      db_relation = postgres_relations[0]
      db_scheme = "postgresql"
  elif mongo_relations:
      db_relation = mongo_relations[0]
      db_scheme = "mongodb"
  \<close>
\<close>

fun resolve_relation :: "relation list \<Rightarrow> relation list \<Rightarrow> (relation \<times> string) option" where
  "resolve_relation (r # rs) mongo_relations = Some (r, ''postgresql'')"
| "resolve_relation [] (r # rs) = Some (r, ''mongodb'')"
| "resolve_relation [] [] = None"

section \<open>The handlers of \<^verbatim>\<open>reactive/wsgi.py\<close>\<close>

text \<open>
  The state of the unit that the handlers change: the readiness flags
  (\<^verbatim>\<open>set_state\<close>, \<^verbatim>\<open>remove_state\<close>) and the text of \<^verbatim>\<open>/etc/environment\<close>.
  Every call that leaves the process is recorded, in order, as an effect.
\<close>

record state =
  flags :: "string set"
  env_text :: string

datatype effect =
    RemoveState string
  | SetState string
  | StatusSet string string
  | Log string
  | AptInstall "string list"
  | Getpwnam string
  | CheckCall "string list" "string option" "dict option" "passwd option"
  | ReadFile string
  | WriteFile string string
  | OpenPort "16 word"
  | Render string string "(string \<times> pyval) list" dict
  | ServiceRunning string
  | ServiceReload string
  | ServiceStart string
  | IsPortOpen "16 word"
  | Sleep nat
  | HttpConfigure "16 word"

text \<open>
  A handler step maps the state to a result or an exception, the new state and the
  effects it made. An exception ends the handler; the state reached stays (the flags are
  those of the running process; what the framework saves when a hook fails is not part
  of these handlers).
\<close>

type_synonym 'a act = "state \<Rightarrow> (error + 'a) \<times> state \<times> effect list"

definition ret :: "'a \<Rightarrow> 'a act" where
  "ret a s = (Inr a, s, [])"

definition bind :: "'a act \<Rightarrow> ('a \<Rightarrow> 'b act) \<Rightarrow> 'b act" where
  "bind m f s =
     (case m s of
        (Inl e, s1, t1) \<Rightarrow> (Inl e, s1, t1)
      | (Inr a, s1, t1) \<Rightarrow> (case f a s1 of (r, s2, t2) \<Rightarrow> (r, s2, t1 @ t2)))"

definition seq :: "unit act \<Rightarrow> 'b act \<Rightarrow> 'b act" where
  "seq m k = bind m (\<lambda>_. k)"

definition emit :: "effect \<Rightarrow> unit act" where
  "emit e s = (Inr (), s, [e])"

definition lift :: "error + 'a \<Rightarrow> 'a act" where
  "lift r s = (r, s, [])"

definition remove_state :: "string \<Rightarrow> unit act" where
  "remove_state f s = (Inr (), s\<lparr>flags := flags s - {f}\<rparr>, [RemoveState f])"

definition set_state :: "string \<Rightarrow> unit act" where
  "set_state f s = (Inr (), s\<lparr>flags := insert f (flags s)\<rparr>, [SetState f])"

text \<open>\<^verbatim>\<open>subprocess.check_call\<close>: \<open>ok\<close> says whether the command exits with status 0.\<close>

definition check_call ::
  "bool \<Rightarrow> string list \<Rightarrow> string option \<Rightarrow> dict option \<Rightarrow> passwd option \<Rightarrow> unit act" where
  "check_call ok cmd cwd env preexec s =
     ((if ok then Inr () else Inl (CalledProcessError cmd)), s, [CheckCall cmd cwd env preexec])"

definition env_file :: string where
  "env_file = ''/etc/environment''"

definition get_env_act :: "dict act" where
  "get_env_act s = (get_env (env_text s), s, [ReadFile env_file])"

definition set_env_values_act :: "dict \<Rightarrow> unit act" where
  "set_env_values_act incoming s =
     (case set_env_values (env_text s) incoming of
        Inl e \<Rightarrow> (Inl e, s, [ReadFile env_file])
      | Inr (text, env_lines) \<Rightarrow>
          (Inr (), s\<lparr>env_text := text\<rparr>, [ReadFile env_file, WriteFile env_file text]))"

definition delete_env_value_act :: "string \<Rightarrow> unit act" where
  "delete_env_value_act target_key s =
     (case delete_env_value (env_text s) target_key of
        (text, env_lines) \<Rightarrow>
          (Inr (), s\<lparr>env_text := text\<rparr>, [ReadFile env_file, WriteFile env_file text]))"

text \<open>
  \<^verbatim>\<open>layer_config\<close> (defaults \<^verbatim>\<open>/srv\<close> and \<^verbatim>\<open>wsgi\<close>, overridden from
  \<^verbatim>\<open>wsgi.yaml\<close>) and the charm configuration read with \<^verbatim>\<open>config(...)\<close>. The
  port option is a port number, an integer from 0 to 65535: \<^verbatim>\<open>is_port_open\<close> hands
  it to \<^verbatim>\<open>connect_ex\<close>, which raises on anything else.
\<close>

record layer_config =
  lc_application_root :: string
  lc_username :: string
  lc_provision_command :: pyval

record charm_config =
  cfg_apt_dependencies :: pyval
  cfg_environment_variables :: pyval
  cfg_pip_cache_dir :: pyval
  cfg_port :: "16 word"
  cfg_wsgi_module :: pyval

text \<open>
  What the host answers during one handler run: which commands succeed, whether the
  user and \<^verbatim>\<open>requirements.txt\<close> exist, the relation records, and for each attempt of
  the final check whether the service runs and whether the port accepts a connection.
\<close>

record outside =
  user_exists :: bool
  useradd_ok :: bool
  passwd_entry :: passwd
  requirements_txt :: bool
  pip_install_ok :: bool
  postgres_relations :: "relation list"
  mongo_relations :: "relation list"
  provision_ok :: bool
  open_port_ok :: bool
  render_ok :: bool
  daemon_reload_ok :: bool
  running_before :: bool
  service_up :: "nat \<Rightarrow> bool"
  port_open :: "nat \<Rightarrow> bool"

text \<open>\<^verbatim>\<open>x.split()\<close> on a configuration value: only a string has the method.\<close>

definition split_val :: "pyval \<Rightarrow> error + string list" where
  "split_val v = (case v of PStr s \<Rightarrow> Inr (split_ws s) | _ \<Rightarrow> Inl AttributeError)"

text \<open>
  \<^verbatim>\<open>
  try:
      user = pwd.getpwnam(username)
  except KeyError:
      subprocess.check_call(['useradd', username])
      user = pwd.getpwnam(username)
  return user
  \<close>
\<close>

definition get_user :: "outside \<Rightarrow> string \<Rightarrow> passwd act" where
  "get_user out name =
     seq (emit (Getpwnam name))
       (if user_exists out then ret (passwd_entry out)
        else seq (check_call (useradd_ok out) [''useradd'', name] None None None)
               (seq (emit (Getpwnam name)) (ret (passwd_entry out))))"

text \<open>
  \<^verbatim>\<open>apt_install\<close> of charmhelpers is called without \<^verbatim>\<open>fatal=True\<close>: it runs
  \<^verbatim>\<open>apt-get\<close> and drops its exit status.
\<close>

definition apt_install :: "string list \<Rightarrow> unit act" where
  "apt_install packages s = (Inr (), s, [AptInstall packages])"

text \<open>
  \<^verbatim>\<open>
  @hook('install', 'upgrade-charm')
  def system_dependencies():
      status_set('maintenance', '[wsgi] Setting up dependencies')
      log('[wsgi] Installing system dependencies')
      apt_install(['python3-pip', 'python-setuptools', 'circus', 'gunicorn3'])
      log('[wsgi] Ensuring the user {} exists'.format(layer_config['username']))
      get_user(layer_config['username'])
      set_state('wsgi.system.ready')
  \<close>
\<close>

definition system_dependencies :: "layer_config \<Rightarrow> outside \<Rightarrow> unit act" where
  "system_dependencies lc out =
     seq (emit (StatusSet ''maintenance'' ''[wsgi] Setting up dependencies''))
    (seq (emit (Log ''[wsgi] Installing system dependencies''))
    (seq (apt_install [''python3-pip'', ''python-setuptools'', ''circus'', ''gunicorn3''])
    (seq (emit (Log (''[wsgi] Ensuring the user '' @ lc_username lc @ '' exists'')))
    (bind (get_user out (lc_username lc)) (\<lambda>_.
     set_state ''wsgi.system.ready'')))))"

text \<open>
  \<^verbatim>\<open>
  @hook('config-changed')
  def configure_dependencies():
      status_set('maintenance', '[wsgi] Installing configured dependencies')
      extra_dependencies = config('apt_dependencies') or ""
      apt_install(extra_dependencies.split())
      log('[wsgi] Setting environment variables in {}'.format(env_file))
      set_env_values(env_file, variables_from_string(config('environment_variables')))
      set_state('wsgi.configured')
  \<close>
\<close>

definition variables_from_val :: "pyval \<Rightarrow> error + dict" where
  "variables_from_val v =
     (case v of PStr s \<Rightarrow> variables_from_string s | _ \<Rightarrow> Inl AttributeError)"

definition configure_dependencies :: "charm_config \<Rightarrow> unit act" where
  "configure_dependencies cfg =
     seq (emit (StatusSet ''maintenance'' ''[wsgi] Installing configured dependencies''))
    (bind (lift (split_val (py_or (cfg_apt_dependencies cfg) (PStr [])))) (\<lambda>extra_dependencies.
     seq (apt_install extra_dependencies)
    (seq (emit (Log (''[wsgi] Setting environment variables in '' @ env_file)))
    (bind (lift (variables_from_val (cfg_environment_variables cfg))) (\<lambda>variables.
     seq (set_env_values_act variables)
         (set_state ''wsgi.configured''))))))"

text \<open>
  \<^verbatim>\<open>dict(LC_ALL='C.UTF-8', **get_env(env_file))\<close>: a keyword given twice is a
  \<^verbatim>\<open>TypeError\<close>.
\<close>

definition pip_env :: "dict \<Rightarrow> error + dict" where
  "pip_env env =
     (if ''LC_ALL'' \<in> fst ` set env then Inl TypeError
      else Inr ((''LC_ALL'', ''C.UTF-8'') # env))"

text \<open>
  \<^verbatim>\<open>start_application_service\<close>, lines 100 to 131: the flags are cleared, the
  dependencies of the application are installed, \<^verbatim>\<open>wsgi.ready\<close> is set.
  \<^verbatim>\<open>
  remove_state('wsgi.source.available')
  remove_state('wsgi.available')
  status_set('maintenance', '[wsgi] Installing application dependencies')
  cache_dir = config('pip_cache_dir')
  if os.path.isfile('requirements.txt'):
      if cache_dir:
          log('[wsgi] Installing pip dependencies from {}'.format(cache_dir))
          subprocess.check_call(
              ['pip3', 'install', '--no-index', '--find-links', cache_dir,
               '--requirement', 'requirements.txt'],
              cwd=layer_config['application_root'],
              env=dict(LC_ALL='C.UTF-8', **get_env(env_file)))
      else:
          log('[wsgi] Installing pip dependencies from PyPi')
          subprocess.check_call(
              ['pip3', 'install', '--requirement', 'requirements.txt'],
              cwd=layer_config['application_root'],
              env=dict(LC_ALL='C.UTF-8', **get_env(env_file)))
  set_state('wsgi.ready')
  \<close>
\<close>

definition pip_install :: "layer_config \<Rightarrow> charm_config \<Rightarrow> outside \<Rightarrow> unit act" where
  "pip_install lc cfg out =
     (let cache_dir = cfg_pip_cache_dir cfg
      in if requirements_txt out
         then (if truthy cache_dir
               then seq (emit (Log (''[wsgi] Installing pip dependencies from '' @
                                    format_val cache_dir)))
                   (bind get_env_act (\<lambda>env.
                    bind (lift (pip_env env)) (\<lambda>env.
                      case cache_dir of
                        PStr dir \<Rightarrow>
                          check_call (pip_install_ok out)
                            [''pip3'', ''install'', ''--no-index'', ''--find-links'', dir,
                             ''--requirement'', ''requirements.txt'']
                            (Some (lc_application_root lc)) (Some env) None
                      | _ \<Rightarrow> lift (Inl TypeError))))
               else seq (emit (Log ''[wsgi] Installing pip dependencies from PyPi''))
                   (bind get_env_act (\<lambda>env.
                    bind (lift (pip_env env)) (\<lambda>env.
                      check_call (pip_install_ok out)
                        [''pip3'', ''install'', ''--requirement'', ''requirements.txt'']
                        (Some (lc_application_root lc)) (Some env) None))))
         else ret ())"

definition install_phase :: "layer_config \<Rightarrow> charm_config \<Rightarrow> outside \<Rightarrow> unit act" where
  "install_phase lc cfg out =
     seq (remove_state ''wsgi.source.available'')
    (seq (remove_state ''wsgi.available'')
    (seq (emit (StatusSet ''maintenance'' ''[wsgi] Installing application dependencies''))
    (seq (pip_install lc cfg out)
         (set_state ''wsgi.ready''))))"

text \<open>
  Lines 133 to 177: the database relation.
  \<^verbatim>\<open>
  log('[wsgi] Checking for database connection')
  postgres_relations = relations_of_type('postgres')
  mongo_relations = relations_of_type('mongo')
  ...
  if db_relation:
      ...
      log('[wsgi] Using database at {}:{}'.format(db_host, db_port))
      database_url = urlunparse(...)
      set_env_values(env_file, {'DATABASE_URL': database_url})
      provision_command = layer_config.get('provision_command')
      if provision_command:
          status_set('maintenance', '[wsgi] Provisioning database')
          subprocess.check_call(
              provision_command.split(),
              cwd=layer_config['application_root'],
              env=get_env(env_file),
              preexec_fn=demote(get_user(layer_config['username'])))
  else:
      log('[wsgi] No database attached')
      delete_env_value(env_file, 'DATABASE_URL')
  \<close>
  A dictionary is true when it is not empty. The entry handed to \<^verbatim>\<open>demote\<close> is
  kept in the effect of the call.
\<close>

definition provision_database :: "layer_config \<Rightarrow> outside \<Rightarrow> unit act" where
  "provision_database lc out =
     (let provision_command = lc_provision_command lc
      in if truthy provision_command
         then seq (emit (StatusSet ''maintenance'' ''[wsgi] Provisioning database''))
             (bind (lift (split_val provision_command)) (\<lambda>cmd.
              bind get_env_act (\<lambda>env.
              bind (get_user out (lc_username lc)) (\<lambda>user.
                if cmd = [] then lift (Inl IndexError)
                else check_call (provision_ok out) cmd
                       (Some (lc_application_root lc)) (Some env) (Some user)))))
         else ret ())"

definition no_database :: "unit act" where
  "no_database =
     seq (emit (Log ''[wsgi] No database attached''))
         (delete_env_value_act ''DATABASE_URL'')"

definition database_phase :: "layer_config \<Rightarrow> outside \<Rightarrow> unit act" where
  "database_phase lc out =
     seq (emit (Log ''[wsgi] Checking for database connection''))
       (case resolve_relation (postgres_relations out) (mongo_relations out) of
          None \<Rightarrow> no_database
        | Some (db_relation, db_scheme) \<Rightarrow>
            if db_relation \<noteq> []
            then seq (emit (Log (''[wsgi] Using database at '' @
                                 format_val (db_host_of db_relation) @ '':'' @
                                 format_val (dict_get db_relation ''port''))))
                (bind (lift (database_url db_scheme db_relation)) (\<lambda>url.
                 seq (set_env_values_act [(''DATABASE_URL'', url)])
                     (provision_database lc out)))
            else no_database)"

text \<open>
  Lines 179 to 210: the port is opened, the unit file rendered, the service reloaded
  or started. \<^verbatim>\<open>service_reload\<close> and \<^verbatim>\<open>service_start\<close> return a truth value
  that the handler drops.
  \<^verbatim>\<open>
  status_set('maintenance', '[wsgi] Opening port {}'.format(config('port')))
  log('[wsgi] Opening port {}'.format(config('port')))
  open_port(config('port'))
  service_name = 'gunicorn3.service'
  service_file = '/etc/systemd/system/{}'.format(service_name)
  log('[wsgi] Writing systemd config to {}'.format(service_file))
  status_set('maintenance', '[wsgi] Preparing daemon')
  render(source='{}.j2'.format(service_name), target=service_file, perms=0o644,
         context={..., 'env': get_env(env_file)})
  subprocess.check_call(['systemctl', 'daemon-reload'])
  if service_running(service_name):
      log('[wsgi] Reloading {}'.format(service_name))
      service_reload(service_name)
  else:
      log('[wsgi] Starting {}'.format(service_name))
      service_start(service_name)
  \<close>
\<close>

definition service_name :: string where
  "service_name = ''gunicorn3.service''"

definition service_file :: string where
  "service_file = ''/etc/systemd/system/'' @ service_name"

definition port_text :: "charm_config \<Rightarrow> string" where
  "port_text cfg = show_nat (unat (cfg_port cfg))"

definition open_port :: "outside \<Rightarrow> 16 word \<Rightarrow> unit act" where
  "open_port out p s =
     ((if open_port_ok out then Inr ()
       else Inl (CalledProcessError [''open-port'', show_nat (unat p) @ ''/TCP''])),
      s, [OpenPort p])"

definition render ::
  "outside \<Rightarrow> string \<Rightarrow> string \<Rightarrow> (string \<times> pyval) list \<Rightarrow> dict \<Rightarrow> unit act" where
  "render out source target ctx env s =
     ((if render_ok out then Inr () else Inl RenderError), s, [Render source target ctx env])"

definition service_phase :: "layer_config \<Rightarrow> charm_config \<Rightarrow> outside \<Rightarrow> unit act" where
  "service_phase lc cfg out =
     seq (emit (StatusSet ''maintenance'' (''[wsgi] Opening port '' @ port_text cfg)))
    (seq (emit (Log (''[wsgi] Opening port '' @ port_text cfg)))
    (seq (open_port out (cfg_port cfg))
    (seq (emit (Log (''[wsgi] Writing systemd config to '' @ service_file)))
    (seq (emit (StatusSet ''maintenance'' ''[wsgi] Preparing daemon''))
    (bind get_env_act (\<lambda>env.
     seq (render out (service_name @ ''.j2'') service_file
            [(''application_root'', PStr (lc_application_root lc)),
             (''env_file'', PStr env_file),
             (''wsgi_module'', cfg_wsgi_module cfg),
             (''user'', PStr (lc_username lc)),
             (''group'', PStr (lc_username lc)),
             (''port'', PInt (uint (cfg_port cfg)))] env)
    (seq (check_call (daemon_reload_ok out) [''systemctl'', ''daemon-reload''] None None None)
    (seq (emit (ServiceRunning service_name))
         (if running_before out
          then seq (emit (Log (''[wsgi] Reloading '' @ service_name)))
                   (emit (ServiceReload service_name))
          else seq (emit (Log (''[wsgi] Starting '' @ service_name)))
                   (emit (ServiceStart service_name)))))))))))"

text \<open>
  Lines 212 to 230: the check that the service answers.
  \<^verbatim>\<open>
  service_responding = False
  for attempt in range(0, 10):
      log('[wsgi] Waiting for service on port {} (attempt {})'.format(config('port'), attempt))
      if service_running(service_name) and is_port_open(config('port')):
          service_responding = True
          break
      sleep(6)
  if service_responding:
      log('[wsgi] Service responded on port {}'.format(config('port')))
      status_set('active', '[wsgi] Service started on port {}'.format(config('port')))
      set_state('wsgi.available')
  else:
      raise socket.error('Service not responding')
  \<close>
  The loop runs over the attempts that are left and returns \<open>service_responding\<close> with
  the effects made; \<^verbatim>\<open>and\<close> asks \<^verbatim>\<open>is_port_open\<close> only when the service runs.
\<close>

fun wait_for_service :: "charm_config \<Rightarrow> outside \<Rightarrow> nat list \<Rightarrow> bool \<times> effect list" where
  "wait_for_service cfg out [] = (False, [])"
| "wait_for_service cfg out (attempt # rest) =
     (let asked =
            [Log (''[wsgi] Waiting for service on port '' @ port_text cfg @
                  '' (attempt '' @ show_nat attempt @ '')''),
             ServiceRunning service_name] @
            (if service_up out attempt then [IsPortOpen (cfg_port cfg)] else [])
      in if service_up out attempt \<and> port_open out attempt
         then (True, asked)
         else (case wait_for_service cfg out rest of
                 (service_responding, later) \<Rightarrow> (service_responding, asked @ Sleep 6 # later)))"

definition max_attempts :: nat where
  "max_attempts = 10"

definition wait_act :: "charm_config \<Rightarrow> outside \<Rightarrow> bool act" where
  "wait_act cfg out s =
     (case wait_for_service cfg out [0..<max_attempts] of
        (service_responding, t) \<Rightarrow> (Inr service_responding, s, t))"

definition verify_phase :: "charm_config \<Rightarrow> outside \<Rightarrow> unit act" where
  "verify_phase cfg out =
     bind (wait_act cfg out) (\<lambda>service_responding.
       if service_responding
       then seq (emit (Log (''[wsgi] Service responded on port '' @ port_text cfg)))
           (seq (emit (StatusSet ''active''
                   (''[wsgi] Service started on port '' @ port_text cfg)))
                (set_state ''wsgi.available''))
       else lift (Inl (SocketError ''Service not responding'')))"

text \<open>Everything of the pass before the final check, and the whole pass.\<close>

definition provision :: "layer_config \<Rightarrow> charm_config \<Rightarrow> outside \<Rightarrow> unit act" where
  "provision lc cfg out =
     seq (install_phase lc cfg out) (seq (database_phase lc out) (service_phase lc cfg out))"

definition start_application_service ::
  "layer_config \<Rightarrow> charm_config \<Rightarrow> outside \<Rightarrow> unit act" where
  "start_application_service lc cfg out = seq (provision lc cfg out) (verify_phase cfg out)"

text \<open>
  \<^verbatim>\<open>
  @hook('{mongo,postgres}-relation-{joined,changed,broken,departed}')
  def database_attached():
      if all_states('wsgi.configured', 'wsgi.source.available', 'wsgi.system.ready'):
          start_application_service()

  @when_all('website.available')
  def send_port(http):
      http.configure(config('port'))
  \<close>
\<close>

definition database_attached :: "layer_config \<Rightarrow> charm_config \<Rightarrow> outside \<Rightarrow> unit act" where
  "database_attached lc cfg out s =
     (if {''wsgi.configured'', ''wsgi.source.available'', ''wsgi.system.ready''} \<subseteq> flags s
      then start_application_service lc cfg out s
      else ret () s)"

definition send_port :: "charm_config \<Rightarrow> unit act" where
  "send_port cfg = emit (HttpConfigure (cfg_port cfg))"

text \<open>The handlers that the host can run.\<close>

datatype handler =
    SystemDependencies
  | ConfigureDependencies
  | DatabaseAttached
  | StartApplicationService
  | SendPort

fun run_handler :: "layer_config \<Rightarrow> charm_config \<Rightarrow> outside \<Rightarrow> handler \<Rightarrow> unit act" where
  "run_handler lc cfg out SystemDependencies = system_dependencies lc out"
| "run_handler lc cfg out ConfigureDependencies = configure_dependencies cfg"
| "run_handler lc cfg out DatabaseAttached = database_attached lc cfg out"
| "run_handler lc cfg out StartApplicationService = start_application_service lc cfg out"
| "run_handler lc cfg out SendPort = send_port cfg"

section \<open>Reading an effect trace\<close>

text \<open>
  The seconds slept, in order, and the number of times \<^verbatim>\<open>service_running\<close> was asked
  about the service.
\<close>

fun slept :: "effect list \<Rightarrow> nat list" where
  "slept [] = []"
| "slept (Sleep n # t) = n # slept t"
| "slept (e # t) = slept t"

definition asked_running :: "effect list \<Rightarrow> nat" where
  "asked_running t = count_list t (ServiceRunning service_name)"

section \<open>Sample inputs\<close>

text \<open>
  The default layer configuration, a charm configuration, a host on which every command
  succeeds while the port never opens, and a unit state with all triggers of the pass set.
\<close>

definition default_layer :: layer_config where
  "default_layer = \<lparr>lc_application_root = ''/srv'', lc_username = ''wsgi'',
     lc_provision_command = PNone\<rparr>"

definition sample_config :: charm_config where
  "sample_config = \<lparr>cfg_apt_dependencies = PNone, cfg_environment_variables = PStr ''A=1'',
     cfg_pip_cache_dir = PNone, cfg_port = 80, cfg_wsgi_module = PStr ''app.wsgi''\<rparr>"

definition quiet_host :: outside where
  "quiet_host = \<lparr>user_exists = True, useradd_ok = True,
     passwd_entry = \<lparr>pw_name = ''wsgi'', pw_uid = 1001, pw_gid = 1002\<rparr>,
     requirements_txt = False, pip_install_ok = True,
     postgres_relations = [], mongo_relations = [],
     provision_ok = True, open_port_ok = True, render_ok = True, daemon_reload_ok = True,
     running_before = False, service_up = (\<lambda>_. True), port_open = (\<lambda>_. False)\<rparr>"

definition ready_state :: state where
  "ready_state =
     \<lparr>flags = {''wsgi.system.ready'', ''wsgi.configured'', ''wsgi.source.available'',
               ''wsgi.available''},
      env_text = ''LANG=C\<newline>''\<rparr>"

text \<open>
  Hosts with a Postgres relation (the port opens at the third attempt) and with a Mongo
  relation, a unit state whose environment file holds an old connection URL, a process of
  the root user, and a configuration whose second declaration has two equals signs.
\<close>

definition postgres_host :: outside where
  "postgres_host = quiet_host\<lparr>
     postgres_relations := [[(''host'', ''db1''), (''port'', ''5432''), (''user'', ''app'')]],
     port_open := (\<lambda>n. 2 \<le> n)\<rparr>"

definition mongo_host :: outside where
  "mongo_host = quiet_host\<lparr>
     mongo_relations := [[(''hostname'', ''mongo1''), (''port'', ''27017'')]],
     port_open := (\<lambda>n. True)\<rparr>"

definition stale_state :: state where
  "stale_state =
     \<lparr>flags = {''wsgi.system.ready'', ''wsgi.configured'', ''wsgi.source.available''},
      env_text = ''LANG=C\<newline>DATABASE_URL=postgresql://old\<newline>''\<rparr>"

definition root_process :: process where
  "root_process = \<lparr>proc_uid = 0, proc_gid = 0\<rparr>"

definition bad_config :: charm_config where
  "bad_config = sample_config\<lparr>cfg_environment_variables := PStr ''A=1 B=x=y''\<rparr>"

section \<open>Notions of the proofs\<close>

text \<open>
  The shape of the lines that \<^const>\<open>readlines\<close> delivers: every line but the last ends
  in a line feed, no line holds another line feed or a carriage return.
\<close>

definition terminated :: "string \<Rightarrow> bool" where
  "terminated l = (\<exists>b. l = b @ [CHR 0x0A] \<and> CHR 0x0A \<notin> set b \<and> CHR 0x0D \<notin> set b)"

definition unterminated :: "string \<Rightarrow> bool" where
  "unterminated l = (l \<noteq> [] \<and> CHR 0x0A \<notin> set l \<and> CHR 0x0D \<notin> set l)"

fun lines_ok :: "string list \<Rightarrow> bool" where
  "lines_ok [] = True"
| "lines_ok [l] = (terminated l \<or> unterminated l)"
| "lines_ok (l # ls) = (terminated l \<and> lines_ok ls)"

text \<open>
  The key that \<^verbatim>\<open>get_env\<close> and \<^verbatim>\<open>set_env_values\<close> read from a line: the text before
  the first equals sign, when the pattern matches. \<open>rewritten\<close> is the line written for a
  line read, \<open>hits\<close> the keys found; \<open>decl_pair\<close> cuts a declaration at its first
  equals sign; \<open>val_of\<close> is the value that \<^verbatim>\<open>get_env\<close> reads from a line.
\<close>

definition key_of :: "string \<Rightarrow> string option" where
  "key_of l = (if re_match_variable l then Some (takeWhile (\<lambda>c. c \<noteq> CHR ''='') l) else None)"

definition rewritten :: "dict \<Rightarrow> string \<Rightarrow> string" where
  "rewritten incoming l =
     (case key_of l of
        None \<Rightarrow> l
      | Some k \<Rightarrow> (case map_of incoming k of None \<Rightarrow> l | Some v \<Rightarrow> new_line k v))"

definition hits :: "dict \<Rightarrow> string list \<Rightarrow> string list" where
  "hits incoming ls =
     concat (map (\<lambda>l. case key_of l of
                         None \<Rightarrow> []
                       | Some k \<Rightarrow> (case map_of incoming k of None \<Rightarrow> [] | Some v \<Rightarrow> [k])) ls)"

definition decl_pair :: "string \<Rightarrow> string \<times> string" where
  "decl_pair t = (takeWhile (\<lambda>c. c \<noteq> CHR ''='') t, tl (dropWhile (\<lambda>c. c \<noteq> CHR ''='') t))"

definition val_of :: "string \<Rightarrow> string" where
  "val_of l = tl (dropWhile (\<lambda>c. c \<noteq> CHR ''='') (strip l))"

text \<open>
  A relation between the state before a step and the state after it that every run of
  the step satisfies, and the relations used: flags other than the two cleared ones stay,
  an unset flag stays unset, the environment file stays, nothing changes.
\<close>

definition stable :: "(state \<Rightarrow> state \<Rightarrow> bool) \<Rightarrow> 'a act \<Rightarrow> bool" where
  "stable R m = (\<forall>s. R s (fst (snd (m s))))"

definition keeps_flags :: "state \<Rightarrow> state \<Rightarrow> bool" where
  "keeps_flags s s' = (flags s - {''wsgi.source.available'', ''wsgi.available''} \<subseteq> flags s')"

definition keeps_unset :: "string \<Rightarrow> state \<Rightarrow> state \<Rightarrow> bool" where
  "keeps_unset f s s' = (f \<notin> flags s \<longrightarrow> f \<notin> flags s')"

definition keeps_env :: "state \<Rightarrow> state \<Rightarrow> bool" where
  "keeps_env s s' = (env_text s' = env_text s)"

definition keeps_state :: "state \<Rightarrow> state \<Rightarrow> bool" where
  "keeps_state s s' = (s' = s)"

definition raises_no_socket_error :: "'a act \<Rightarrow> bool" where
  "raises_no_socket_error m = (\<forall>s msg. fst (m s) \<noteq> Inl (SocketError msg))"

section \<open>Auxiliary lemmas\<close>

subsection \<open>Lines of a file\<close>

lemma lines_ok_Cons: "lines_ok (l # ls) = ((terminated l \<or> (unterminated l \<and> ls = [])) \<and> lines_ok ls)"
  by (cases ls) auto

lemma lines_ok_tl: "lines_ok (l # ls) \<Longrightarrow> lines_ok ls"
  by (simp add: lines_ok_Cons)

lemma lines_ok_terminated_Cons: "terminated l \<Longrightarrow> lines_ok ls \<Longrightarrow> lines_ok (l # ls)"
  by (simp add: lines_ok_Cons)

lemma readlines_body:
  "CHR 0x0A \<notin> set b \<Longrightarrow> CHR 0x0D \<notin> set b \<Longrightarrow>
   readlines (b @ CHR 0x0A # rest) = (b @ [CHR 0x0A]) # readlines rest"
  by (induction b) auto

lemma readlines_unterminated:
  "unterminated l \<Longrightarrow> readlines l = [l]"
proof (induction l)
  case Nil
  then show ?case by (simp add: unterminated_def)
next
  case (Cons c l)
  then show ?case by (cases l) (auto simp: unterminated_def)
qed

lemma readlines_concat: "lines_ok ls \<Longrightarrow> readlines (concat ls) = ls"
proof (induction ls)
  case Nil
  then show ?case by simp
next
  case (Cons l ls)
  from Cons.prems have ok: "lines_ok ls" by (rule lines_ok_tl)
  from Cons.prems consider "terminated l" | "unterminated l" "ls = []"
    by (auto simp: lines_ok_Cons)
  then show ?case
  proof cases
    case 1
    then obtain b where "l = b @ [CHR 0x0A]" "CHR 0x0A \<notin> set b" "CHR 0x0D \<notin> set b"
      by (auto simp: terminated_def)
    then show ?thesis using Cons.IH [OF ok] by (simp add: readlines_body)
  next
    case 2
    then show ?thesis by (simp add: readlines_unterminated)
  qed
qed

lemma lines_ok_filter: "lines_ok ls \<Longrightarrow> lines_ok (filter P ls)"
proof (induction ls)
  case Nil
  then show ?case by simp
next
  case (Cons l ls)
  then show ?case by (auto simp: lines_ok_Cons)
qed

lemma terminated_Cons: "c \<noteq> CHR 0x0A \<Longrightarrow> c \<noteq> CHR 0x0D \<Longrightarrow> terminated l \<Longrightarrow> terminated (c # l)"
  unfolding terminated_def by (metis Cons_eq_appendI set_ConsD)

lemma unterminated_Cons: "c \<noteq> CHR 0x0A \<Longrightarrow> c \<noteq> CHR 0x0D \<Longrightarrow> unterminated l \<Longrightarrow> unterminated (c # l)"
  unfolding unterminated_def by auto

lemma terminated_nl: "terminated [CHR 0x0A]"
  unfolding terminated_def by simp

lemma lines_ok_readlines: "lines_ok (readlines s)"
proof (induction s rule: readlines.induct)
  case 1
  then show ?case by simp
next
  case (2 c cs)
  show ?case
  proof (cases "c = CHR 0x0A")
    case True
    with 2 show ?thesis by (simp add: lines_ok_Cons terminated_nl)
  next
    case nl: False
    show ?thesis
    proof (cases "c = CHR 0x0D")
      case True
      with nl 2 show ?thesis
        by (auto simp: lines_ok_Cons terminated_nl split: list.splits)
    next
      case False
      with nl 2 have ih: "lines_ok (readlines cs)" by simp
      show ?thesis
      proof (cases "readlines cs")
        case Nil
        with nl False show ?thesis by (simp add: unterminated_def)
      next
        case (Cons l ls)
        with ih nl False show ?thesis
          by (auto simp: lines_ok_Cons terminated_Cons unterminated_Cons)
      qed
    qed
  qed
qed

subsection \<open>The key and the value of a line\<close>

lemma letter_not_space: "is_letter_us c \<Longrightarrow> \<not> is_space c"
  by (auto simp: is_letter_us_def is_space_def Let_def)

lemma alnum_not_eq: "is_alnum_us c \<Longrightarrow> c \<noteq> CHR ''=''"
  by (auto simp: is_alnum_us_def is_letter_us_def Let_def)

lemma letter_alnum: "is_letter_us c \<Longrightarrow> is_alnum_us c"
  by (simp add: is_alnum_us_def)

lemma eq_not_space: "\<not> is_space CHR ''=''"
  by (simp add: is_space_def)

lemma re_match_variable_shape:
  assumes "re_match_variable l"
  obtains p rest where "l = p @ CHR ''='' # rest" "p \<noteq> []" "is_letter_us (hd p)"
    "CHR ''='' \<notin> set p"
proof -
  let ?a = "takeWhile is_letter_us l"
  let ?r = "dropWhile is_letter_us l"
  let ?b = "takeWhile is_alnum_us ?r"
  from assms have a: "?a \<noteq> []" by (simp add: re_match_variable_def)
  from assms obtain rest where r: "dropWhile is_alnum_us ?r = CHR ''='' # rest"
    by (auto simp: re_match_variable_def split: list.splits)
  have l: "l = (?a @ ?b) @ CHR ''='' # rest"
    using r by (metis append.assoc takeWhile_dropWhile_id)
  have h: "is_letter_us (hd (?a @ ?b))"
    using a by (metis hd_append2 hd_in_set set_takeWhileD)
  have "\<forall>c \<in> set (?a @ ?b). is_alnum_us c"
    by (auto dest: set_takeWhileD letter_alnum)
  then have n: "CHR ''='' \<notin> set (?a @ ?b)"
    using alnum_not_eq by blast
  from a have "?a @ ?b \<noteq> []" by simp
  with l h n show ?thesis using that by blast
qed

lemma strip_shape:
  assumes "p \<noteq> []" "\<not> is_space (hd p)"
  shows "strip (p @ CHR ''='' # rest) = p @ CHR ''='' # rev (dropWhile is_space (rev rest))"
proof -
  from assms have "dropWhile is_space (p @ CHR ''='' # rest) = p @ CHR ''='' # rest"
    by (cases p) auto
  moreover have "dropWhile is_space (rev rest @ CHR ''='' # rev p) =
      dropWhile is_space (rev rest) @ CHR ''='' # rev p"
    by (induction "rev rest" arbitrary: rest) (auto simp: eq_not_space dropWhile_append3)
  ultimately show ?thesis by (simp add: strip_def)
qed

lemma takeWhile_until: "sep \<notin> set p \<Longrightarrow> takeWhile (\<lambda>c. c \<noteq> sep) (p @ sep # rest) = p"
  by (induction p) auto

lemma dropWhile_until:
  "sep \<notin> set p \<Longrightarrow> dropWhile (\<lambda>c. c \<noteq> sep) (p @ sep # rest) = sep # rest"
  by (induction p) auto

lemma split1_shape:
  "sep \<notin> set p \<Longrightarrow> split1 sep (p @ sep # rest) = [p, rest]"
  by (simp add: split1_def takeWhile_until dropWhile_until)

lemma split_strip_matched:
  assumes "re_match_variable l"
  shows "unpack2 (split1 CHR ''='' (strip l)) =
    Inr (takeWhile (\<lambda>c. c \<noteq> CHR ''='') l, tl (dropWhile (\<lambda>c. c \<noteq> CHR ''='') (strip l)))"
proof -
  from assms obtain p rest where l: "l = p @ CHR ''='' # rest" and p: "p \<noteq> []"
    "is_letter_us (hd p)" "CHR ''='' \<notin> set p"
    by (rule re_match_variable_shape)
  from p have s: "strip l = p @ CHR ''='' # rev (dropWhile is_space (rev rest))"
    unfolding l by (intro strip_shape) (auto dest: letter_not_space)
  have t: "takeWhile (\<lambda>c. c \<noteq> CHR ''='') l = p"
    unfolding l using p(3) by (simp add: takeWhile_until)
  have d: "tl (dropWhile (\<lambda>c. c \<noteq> CHR ''='') (strip l)) = rev (dropWhile is_space (rev rest))"
    unfolding s using p(3) by (simp add: dropWhile_until)
  show ?thesis unfolding t d unfolding s using p(3) by (simp add: split1_shape)
qed

lemma line_key_eq: "line_key l = Inr (key_of l)"
  by (simp add: line_key_def key_of_def split_strip_matched)

lemma key_of_prefix: "key_of l = Some k \<Longrightarrow> prefix (k @ ''='') l"
proof -
  assume "key_of l = Some k"
  then have m: "re_match_variable l" and k: "k = takeWhile (\<lambda>c. c \<noteq> CHR ''='') l"
    by (auto simp: key_of_def split: if_splits)
  from m obtain p rest where l: "l = p @ CHR ''='' # rest" and p: "CHR ''='' \<notin> set p"
    by (rule re_match_variable_shape)
  from p have "k = p" unfolding k l by (simp add: takeWhile_until)
  then show ?thesis unfolding l by simp
qed

lemma get_env_loop_eq:
  "get_env_loop ls acc =
     Inr (fold (\<lambda>l env. if re_match_variable l
            then AList.update (takeWhile (\<lambda>c. c \<noteq> CHR ''='') l)
                   (tl (dropWhile (\<lambda>c. c \<noteq> CHR ''='') (strip l))) env
            else env) ls acc)"
  by (induction ls arbitrary: acc) (simp_all add: split_strip_matched)

lemma get_env_loop_keys:
  "get_env_loop ls acc = Inr env \<Longrightarrow>
   fst ` set env \<subseteq> fst ` set acc \<union> {k. \<exists>l \<in> set ls. key_of l = Some k}"
proof (induction ls arbitrary: acc)
  case Nil
  then show ?case by simp
next
  case (Cons l ls)
  show ?case
  proof (cases "re_match_variable l")
    case True
    let ?k = "takeWhile (\<lambda>c. c \<noteq> CHR ''='') l"
    let ?v = "tl (dropWhile (\<lambda>c. c \<noteq> CHR ''='') (strip l))"
    from True Cons.prems have "get_env_loop ls (AList.update ?k ?v acc) = Inr env"
      by (simp add: split_strip_matched)
    from Cons.IH [OF this] have "fst ` set env \<subseteq>
      fst ` set (AList.update ?k ?v acc) \<union> {k. \<exists>l \<in> set ls. key_of l = Some k}" .
    moreover have "fst ` set (AList.update ?k ?v acc) = insert ?k (fst ` set acc)"
      using dom_update [of ?k ?v acc] by (simp add: dom_map_of_conv_image_fst)
    moreover have "key_of l = Some ?k" using True by (simp add: key_of_def)
    ultimately show ?thesis by auto
  next
    case False
    with Cons.prems have "get_env_loop ls acc = Inr env" by simp
    from Cons.IH [OF this] show ?thesis by auto
  qed
qed

lemma delete_env_scan_eq:
  "delete_env_scan k ls acc = acc @ filter (\<lambda>l. \<not> prefix (k @ ''='') l) ls"
  by (induction ls arbitrary: acc) auto

subsection \<open>The loops of \<^verbatim>\<open>set_env_values\<close>\<close>

lemma hits_Cons:
  "hits U (l # ls) =
     (case key_of l of None \<Rightarrow> [] | Some k \<Rightarrow> (case map_of U k of None \<Rightarrow> [] | Some v \<Rightarrow> [k]))
     @ hits U ls"
  by (simp add: hits_def)

lemma hits_Nil: "hits U [] = []"
  by (simp add: hits_def)

lemma set_env_scan_eq:
  "set_env_scan U ls acc found = Inr (acc @ map (rewritten U) ls, found @ hits U ls)"
  by (induction ls arbitrary: acc found)
     (auto simp: line_key_eq rewritten_def hits_Cons hits_Nil split: option.splits)

lemma set_env_append_eq:
  "set_env_append U found acc =
     acc @ map (\<lambda>(k, v). new_line k v) (filter (\<lambda>(k, v). k \<notin> set found) U)"
  by (induction U arbitrary: acc) auto

lemma set_hits:
  "set (hits U ls) = {k. k \<in> dom (map_of U) \<and> (\<exists>l \<in> set ls. key_of l = Some k)}"
  by (induction ls) (auto simp: hits_Cons hits_Nil split: option.splits)

lemma filter_not_found:
  "filter (\<lambda>(k, v). k \<notin> set (hits U ls)) U =
   filter (\<lambda>(k, v). \<not> (\<exists>l \<in> set ls. key_of l = Some k)) U"
proof (rule filter_cong [OF refl])
  fix x assume "x \<in> set U"
  then have "fst x \<in> dom (map_of U)"
    by (metis dom_map_of_conv_image_fst imageI)
  then show "(case x of (k, v) \<Rightarrow> k \<notin> set (hits U ls)) =
             (case x of (k, v) \<Rightarrow> \<not> (\<exists>l \<in> set ls. key_of l = Some k))"
    by (cases x) (auto simp: set_hits)
qed

lemma set_env_values_eq:
  "set_env_values file U =
     (let env_lines = map (rewritten U) (readlines file) @
            map (\<lambda>(k, v). new_line k v)
              (filter (\<lambda>(k, v). \<not> (\<exists>l \<in> set (readlines file). key_of l = Some k)) U)
      in Inr (concat env_lines, env_lines))"
  by (simp add: set_env_values_def set_env_scan_eq set_env_append_eq filter_not_found
      writelines_def Let_def)

subsection \<open>Declarations\<close>

lemma split_on_from_length: "length (split_on_from sep cur s) = Suc (count_list s sep)"
  by (induction s arbitrary: cur) auto

lemma unpack2_other: "length xs \<noteq> 2 \<Longrightarrow> unpack2 xs = Inl ValueError"
  by (cases xs rule: unpack2.cases) auto

lemma split_on_from_none: "sep \<notin> set s \<Longrightarrow> split_on_from sep cur s = [cur @ s]"
  by (induction s arbitrary: cur) auto

lemma split_on_from_first:
  "sep \<notin> set p \<Longrightarrow> split_on_from sep cur (p @ sep # r) = (cur @ p) # split_on_from sep [] r"
  by (induction p arbitrary: cur) auto

lemma count_one_shape:
  "count_list s sep = 1 \<Longrightarrow> \<exists>p r. s = p @ sep # r \<and> sep \<notin> set p \<and> sep \<notin> set r"
proof (induction s)
  case Nil
  then show ?case by simp
next
  case (Cons c s)
  show ?case
  proof (cases "c = sep")
    case True
    with Cons.prems have "count_list s sep = 0" by simp
    then have "sep \<notin> set s" by (simp add: count_list_0_iff)
    with True show ?thesis by (intro exI [of _ "[]"] exI [of _ s]) simp
  next
    case False
    with Cons obtain p r where "s = p @ sep # r" "sep \<notin> set p" "sep \<notin> set r" by auto
    with False show ?thesis by (intro exI [of _ "c # p"] exI [of _ r]) simp
  qed
qed

lemma split_on_one:
  assumes "count_list t sep = 1"
  shows "split_on sep t = [takeWhile (\<lambda>c. c \<noteq> sep) t, tl (dropWhile (\<lambda>c. c \<noteq> sep) t)]"
proof -
  from count_one_shape [OF assms] obtain p r where
    t: "t = p @ sep # r" and p: "sep \<notin> set p" and r: "sep \<notin> set r" by blast
  show ?thesis unfolding t using p r
    by (simp add: split_on_def split_on_from_first split_on_from_none takeWhile_until
        dropWhile_until)
qed

lemma unpack2_split_on:
  "unpack2 (split_on CHR ''='' t) =
     (if count_list t CHR ''='' = 1 then Inr (decl_pair t) else Inl ValueError)"
proof (cases "count_list t CHR ''='' = 1")
  case True
  then show ?thesis by (simp add: split_on_one decl_pair_def)
next
  case False
  then have "length (split_on CHR ''='' t) \<noteq> 2"
    by (simp add: split_on_def split_on_from_length)
  with False show ?thesis by (simp add: unpack2_other)
qed

lemma variables_loop_ok:
  "\<forall>t \<in> set ts. count_list t CHR ''='' = 1 \<Longrightarrow>
   variables_loop ts acc =
     Inr (fold (\<lambda>t. AList.update (fst (decl_pair t)) (snd (decl_pair t))) ts acc)"
  by (induction ts arbitrary: acc) (simp_all add: unpack2_split_on split: prod.splits)

lemma variables_loop_bad:
  "\<exists>t \<in> set ts. count_list t CHR ''='' \<noteq> 1 \<Longrightarrow> variables_loop ts acc = Inl ValueError"
proof (induction ts arbitrary: acc)
  case Nil
  then show ?case by simp
next
  case (Cons t ts)
  show ?case
  proof (cases "count_list t CHR ''='' = 1")
    case True
    with Cons.prems have "\<exists>t \<in> set ts. count_list t CHR ''='' \<noteq> 1" by simp
    from Cons.IH [OF this] True show ?thesis
      by (simp add: unpack2_split_on split: prod.splits)
  next
    case False
    then show ?thesis by (simp add: unpack2_split_on)
  qed
qed

lemma map_of_fold_update:
  "map_of (fold (\<lambda>t. AList.update (fst (f t)) (snd (f t))) ts acc) =
   map_of acc ++ map_of (rev (map f ts))"
proof (induction ts arbitrary: acc)
  case Nil
  then show ?case by simp
next
  case (Cons t ts)
  show ?case
    by (simp add: Cons.IH update_conv' map_add_def fun_eq_iff split: option.splits)
qed

lemma distinct_fold_update:
  "distinct (map fst acc) \<Longrightarrow>
   distinct (map fst (fold (\<lambda>t. AList.update (fst (f t)) (snd (f t))) ts acc))"
  by (induction ts arbitrary: acc) (simp_all add: distinct_update)

subsection \<open>The attempts of the final check\<close>

lemma slept_append: "slept (t @ u) = slept t @ slept u"
  by (induction t rule: slept.induct) auto

lemma asked_running_append: "asked_running (t @ u) = asked_running t + asked_running u"
  by (simp add: asked_running_def)

lemma wait_all_fail:
  "\<forall>a \<in> set as. \<not> (service_up out a \<and> port_open out a) \<Longrightarrow>
   fst (wait_for_service cfg out as) = False \<and>
   slept (snd (wait_for_service cfg out as)) = replicate (length as) 6 \<and>
   asked_running (snd (wait_for_service cfg out as)) = length as"
proof (induction as)
  case Nil
  then show ?case by (simp add: asked_running_def)
next
  case (Cons a as)
  then show ?case
    by (auto simp: asked_running_def split: prod.splits)
qed

lemma wait_first_success:
  "\<forall>a \<in> set pre. \<not> (service_up out a \<and> port_open out a) \<Longrightarrow>
   service_up out b \<and> port_open out b \<Longrightarrow>
   fst (wait_for_service cfg out (pre @ b # post)) = True \<and>
   slept (snd (wait_for_service cfg out (pre @ b # post))) = replicate (length pre) 6 \<and>
   asked_running (snd (wait_for_service cfg out (pre @ b # post))) = Suc (length pre)"
proof (induction pre)
  case Nil
  then show ?case by (simp add: asked_running_def)
next
  case (Cons a pre)
  then show ?case
    by (auto simp: asked_running_def split: prod.splits)
qed

lemma upt_split:
  assumes "0 < k" "k \<le> n"
  shows "[0..<n] = [0..<k - 1] @ (k - 1) # [k..<n]"
proof -
  from assms have "[0..<n] = [0..<k - 1] @ [k - 1..<n]"
    using upt_add_eq_append [of 0 "k - 1" "n - (k - 1)"] by simp
  moreover from assms have "[k - 1..<n] = (k - 1) # [Suc (k - 1)..<n]"
    by (intro upt_conv_Cons) arith
  ultimately show ?thesis using assms by simp
qed

subsection \<open>Relations that the steps preserve\<close>

lemma stable_bind:
  assumes "\<And>s. R s s" "\<And>s t u. R s t \<Longrightarrow> R t u \<Longrightarrow> R s u"
    and "stable R m" "\<And>a. stable R (f a)"
  shows "stable R (bind m f)"
  unfolding stable_def
proof
  fix s
  obtain r s1 t1 where m: "m s = (r, s1, t1)" by (cases "m s") auto
  from assms(3) m have 1: "R s s1" unfolding stable_def by (metis fst_conv snd_conv)
  show "R s (fst (snd (bind m f s)))"
  proof (cases r)
    case (Inl e)
    with m 1 show ?thesis by (simp add: bind_def)
  next
    case (Inr a)
    obtain r2 s2 t2 where f: "f a s1 = (r2, s2, t2)" by (cases "f a s1") auto
    from assms(4) [of a] f have "R s1 s2" unfolding stable_def by (metis fst_conv snd_conv)
    with 1 have "R s s2" by (rule assms(2))
    with m Inr f show ?thesis by (simp add: bind_def)
  qed
qed

lemma keeps_flags_bind:
  "stable keeps_flags m \<Longrightarrow> (\<And>a. stable keeps_flags (f a)) \<Longrightarrow> stable keeps_flags (bind m f)"
  by (rule stable_bind) (auto simp: keeps_flags_def)

lemma keeps_unset_bind:
  "stable (keeps_unset x) m \<Longrightarrow> (\<And>a. stable (keeps_unset x) (f a)) \<Longrightarrow>
   stable (keeps_unset x) (bind m f)"
  by (rule stable_bind) (auto simp: keeps_unset_def)

lemma keeps_env_bind:
  "stable keeps_env m \<Longrightarrow> (\<And>a. stable keeps_env (f a)) \<Longrightarrow> stable keeps_env (bind m f)"
  by (rule stable_bind) (auto simp: keeps_env_def)

lemma stable_seq:
  "stable keeps_flags m \<Longrightarrow> stable keeps_flags k \<Longrightarrow> stable keeps_flags (seq m k)"
  "stable (keeps_unset x) m \<Longrightarrow> stable (keeps_unset x) k \<Longrightarrow> stable (keeps_unset x) (seq m k)"
  "stable keeps_env m \<Longrightarrow> stable keeps_env k \<Longrightarrow> stable keeps_env (seq m k)"
  by (simp_all add: seq_def keeps_flags_bind keeps_unset_bind keeps_env_bind)

lemma stable_if: "stable R a \<Longrightarrow> stable R b \<Longrightarrow> stable R (if c then a else b)"
  by simp

lemma stable_same:
  "(\<And>s. R s s) \<Longrightarrow> (\<And>s. fst (snd (m s)) = s) \<Longrightarrow> stable R m"
  by (simp add: stable_def)

lemma same_state:
  "fst (snd (ret a s)) = s"
  "fst (snd (emit e s)) = s"
  "fst (snd (lift r s)) = s"
  "fst (snd (check_call ok cmd cwd env pre s)) = s"
  "fst (snd (get_env_act s)) = s"
  "fst (snd (apt_install pk s)) = s"
  "fst (snd (open_port out p s)) = s"
  "fst (snd (render out src tg ctx renv s)) = s"
  "fst (snd (wait_act cfg out s)) = s"
  by (simp_all add: ret_def emit_def lift_def check_call_def get_env_act_def apt_install_def
      open_port_def render_def wait_act_def split: prod.splits)

lemma keeps_flags_prims:
  "stable keeps_flags (ret a)"
  "stable keeps_flags (emit e)"
  "stable keeps_flags (lift r)"
  "stable keeps_flags (check_call ok cmd cwd env pre)"
  "stable keeps_flags get_env_act"
  "stable keeps_flags (apt_install pk)"
  "stable keeps_flags (open_port out p)"
  "stable keeps_flags (render out src tg ctx renv)"
  "stable keeps_flags (wait_act cfg out)"
  "stable keeps_flags (set_state x)"
  "stable keeps_flags (set_env_values_act d)"
  "stable keeps_flags (delete_env_value_act k)"
  "stable keeps_flags (remove_state ''wsgi.source.available'')"
  "stable keeps_flags (remove_state ''wsgi.available'')"
  by (auto simp: stable_def same_state keeps_flags_def set_state_def set_env_values_act_def
      delete_env_value_act_def remove_state_def split: sum.splits prod.splits)

lemma keeps_flags_get_user: "stable keeps_flags (get_user out name)"
  unfolding get_user_def by (intro stable_seq stable_if keeps_flags_prims)

lemma keeps_flags_system_dependencies: "stable keeps_flags (system_dependencies lc out)"
  unfolding system_dependencies_def
  by (intro stable_seq keeps_flags_bind stable_if keeps_flags_prims keeps_flags_get_user)

lemma keeps_flags_configure_dependencies: "stable keeps_flags (configure_dependencies cfg)"
  unfolding configure_dependencies_def
  by (intro stable_seq keeps_flags_bind stable_if keeps_flags_prims)

lemma keeps_flags_pip_install: "stable keeps_flags (pip_install lc cfg out)"
  unfolding pip_install_def Let_def
  by (intro stable_seq keeps_flags_bind stable_if keeps_flags_prims)
     (simp_all add: keeps_flags_prims split: pyval.split)

lemma keeps_flags_install_phase: "stable keeps_flags (install_phase lc cfg out)"
  unfolding install_phase_def
  by (intro stable_seq keeps_flags_prims keeps_flags_pip_install)

lemma keeps_flags_provision_database: "stable keeps_flags (provision_database lc out)"
  unfolding provision_database_def Let_def
  by (intro stable_seq keeps_flags_bind stable_if keeps_flags_prims keeps_flags_get_user)

lemma keeps_flags_no_database: "stable keeps_flags no_database"
  unfolding no_database_def by (intro stable_seq keeps_flags_prims)

lemma keeps_flags_database_phase: "stable keeps_flags (database_phase lc out)"
  unfolding database_phase_def
  by (intro stable_seq keeps_flags_prims)
     (auto split: option.split intro!: stable_seq keeps_flags_bind keeps_flags_prims
        keeps_flags_no_database keeps_flags_provision_database)

lemma keeps_flags_service_phase: "stable keeps_flags (service_phase lc cfg out)"
  unfolding service_phase_def
  by (intro stable_seq keeps_flags_bind stable_if keeps_flags_prims)

lemma keeps_flags_verify_phase: "stable keeps_flags (verify_phase cfg out)"
  unfolding verify_phase_def
  by (intro stable_seq keeps_flags_bind stable_if keeps_flags_prims)

lemma keeps_flags_start: "stable keeps_flags (start_application_service lc cfg out)"
  unfolding start_application_service_def provision_def
  by (intro stable_seq keeps_flags_install_phase keeps_flags_database_phase
      keeps_flags_service_phase keeps_flags_verify_phase)

lemma keeps_flags_database_attached: "stable keeps_flags (database_attached lc cfg out)"
  using keeps_flags_start [of lc cfg out]
  by (auto simp: stable_def database_attached_def ret_def keeps_flags_def)

lemma keeps_flags_handler: "stable keeps_flags (run_handler lc cfg out h)"
  by (cases h)
     (simp_all add: keeps_flags_system_dependencies keeps_flags_configure_dependencies
        keeps_flags_database_attached keeps_flags_start send_port_def keeps_flags_prims)

lemma start_trace_head:
  "\<exists>rest. snd (snd (start_application_service lc cfg out s)) =
     RemoveState ''wsgi.source.available'' # RemoveState ''wsgi.available'' # rest"
  by (simp add: start_application_service_def provision_def install_phase_def seq_def bind_def
      remove_state_def split: prod.splits sum.splits)

lemma keeps_state_bind:
  "stable keeps_state m \<Longrightarrow> (\<And>a. stable keeps_state (f a)) \<Longrightarrow> stable keeps_state (bind m f)"
  by (rule stable_bind) (auto simp: keeps_state_def)

lemma keeps_state_seq:
  "stable keeps_state m \<Longrightarrow> stable keeps_state k \<Longrightarrow> stable keeps_state (seq m k)"
  by (simp add: seq_def keeps_state_bind)

lemma keeps_state_prims:
  "stable keeps_state (ret a)"
  "stable keeps_state (emit e)"
  "stable keeps_state (lift r)"
  "stable keeps_state (check_call ok cmd cwd env pre)"
  "stable keeps_state get_env_act"
  "stable keeps_state (apt_install pk)"
  "stable keeps_state (open_port out p)"
  "stable keeps_state (render out src tg ctx renv)"
  "stable keeps_state (wait_act cfg out)"
  by (simp_all add: stable_def keeps_state_def same_state)

lemma keeps_state_get_user: "stable keeps_state (get_user out name)"
  unfolding get_user_def by (intro keeps_state_seq stable_if keeps_state_prims)

lemma keeps_state_pip_install: "stable keeps_state (pip_install lc cfg out)"
  unfolding pip_install_def Let_def
  by (intro keeps_state_seq keeps_state_bind stable_if keeps_state_prims)
     (simp_all add: keeps_state_prims split: pyval.split)

lemma keeps_state_provision_database: "stable keeps_state (provision_database lc out)"
  unfolding provision_database_def Let_def
  by (intro keeps_state_seq keeps_state_bind stable_if keeps_state_prims keeps_state_get_user)

lemma keeps_state_service_phase: "stable keeps_state (service_phase lc cfg out)"
  unfolding service_phase_def
  by (intro keeps_state_seq keeps_state_bind stable_if keeps_state_prims)

lemma stable_of_keeps_state: "(\<And>s. R s s) \<Longrightarrow> stable keeps_state m \<Longrightarrow> stable R m"
  by (simp add: stable_def keeps_state_def)

lemma keeps_unset_refl: "keeps_unset x s s"
  by (simp add: keeps_unset_def)

lemma keeps_env_refl: "keeps_env s s"
  by (simp add: keeps_env_def)

lemmas keeps_unset_same = stable_of_keeps_state [of "keeps_unset x" for x, OF keeps_unset_refl]
lemmas keeps_env_same = stable_of_keeps_state [of keeps_env, OF keeps_env_refl]

lemma unchanged:
  "fst (snd (get_user out name s)) = s"
  "fst (snd (pip_install lc cfg out s)) = s"
  "fst (snd (provision_database lc out s)) = s"
  "fst (snd (service_phase lc cfg out s)) = s"
  using keeps_state_get_user [of out name] keeps_state_pip_install [of lc cfg out]
    keeps_state_provision_database [of lc out] keeps_state_service_phase [of lc cfg out]
  by (simp_all add: stable_def keeps_state_def)

lemma keeps_unset_available_prims:
  "stable (keeps_unset ''wsgi.available'') (set_state ''wsgi.ready'')"
  "stable (keeps_unset ''wsgi.available'') (set_env_values_act d)"
  "stable (keeps_unset ''wsgi.available'') (delete_env_value_act k)"
  "stable (keeps_unset ''wsgi.available'') (emit e)"
  "stable (keeps_unset ''wsgi.available'') (lift r)"
  "stable (keeps_unset ''wsgi.available'') (pip_install lc cfg out)"
  "stable (keeps_unset ''wsgi.available'') (provision_database lc out)"
  "stable (keeps_unset ''wsgi.available'') (service_phase lc cfg out)"
  by (auto simp: stable_def keeps_unset_def set_state_def set_env_values_act_def
      delete_env_value_act_def same_state unchanged split: sum.splits prod.splits)

lemma keeps_unset_database_phase:
  "stable (keeps_unset ''wsgi.available'') (database_phase lc out)"
  unfolding database_phase_def no_database_def
  by (auto split: option.split
      intro!: stable_seq(2) keeps_unset_bind keeps_unset_available_prims)

lemma state_seq_remove:
  "fst (snd (seq (remove_state f) k s)) = fst (snd (k (s\<lparr>flags := flags s - {f}\<rparr>)))"
  "fst (seq (remove_state f) k s) = fst (k (s\<lparr>flags := flags s - {f}\<rparr>))"
  by (simp_all add: seq_def bind_def remove_state_def split: prod.splits)

lemma provision_unavailable:
  "''wsgi.available'' \<notin> flags (fst (snd (provision lc cfg out s)))"
proof -
  let ?rest = "seq (seq (emit (StatusSet ''maintenance''
        ''[wsgi] Installing application dependencies''))
      (seq (pip_install lc cfg out) (set_state ''wsgi.ready'')))
    (seq (database_phase lc out) (service_phase lc cfg out))"
  have st: "stable (keeps_unset ''wsgi.available'') ?rest"
    by (intro stable_seq(2) keeps_unset_available_prims keeps_unset_database_phase)
  have assoc: "seq (seq a b) c = seq a (seq b c)" for a b :: "unit act" and c :: "unit act"
    by (auto simp: seq_def bind_def fun_eq_iff split: prod.splits sum.splits)
  have "provision lc cfg out =
      seq (remove_state ''wsgi.source.available'') (seq (remove_state ''wsgi.available'') ?rest)"
    by (simp add: provision_def install_phase_def assoc)
  then have "fst (snd (provision lc cfg out s)) =
      fst (snd (?rest (s\<lparr>flags := flags s - {''wsgi.source.available''} - {''wsgi.available''}\<rparr>)))"
    by (simp add: state_seq_remove)
  with st show ?thesis
    unfolding stable_def keeps_unset_def
    by (elim allE [of _ "s\<lparr>flags := flags s - {''wsgi.source.available''} - {''wsgi.available''}\<rparr>"]) simp
qed

subsection \<open>Results of sequences, and the errors raised\<close>

lemma bind_result:
  "fst (bind m f s) = (case fst (m s) of Inl e \<Rightarrow> Inl e | Inr a \<Rightarrow> fst (f a (fst (snd (m s)))))"
  by (cases "m s") (auto simp: bind_def split: sum.splits prod.splits)

lemma bind_state:
  "fst (snd (bind m f s)) =
     (case fst (m s) of Inl e \<Rightarrow> fst (snd (m s)) | Inr a \<Rightarrow> fst (snd (f a (fst (snd (m s))))))"
  by (cases "m s") (auto simp: bind_def split: sum.splits prod.splits)

lemma seq_Inr:
  "fst (m s) = Inr () \<Longrightarrow>
   fst (seq m k s) = fst (k (fst (snd (m s)))) \<and>
   fst (snd (seq m k s)) = fst (snd (k (fst (snd (m s)))))"
  by (cases "m s") (auto simp: seq_def bind_def split: prod.splits)

lemma seq_Inl:
  "fst (m s) = Inl e \<Longrightarrow>
   fst (seq m k s) = Inl e \<and> fst (snd (seq m k s)) = fst (snd (m s))"
  by (cases "m s") (auto simp: seq_def bind_def split: prod.splits)

lemma no_socket_bind:
  "raises_no_socket_error m \<Longrightarrow> (\<And>a. raises_no_socket_error (f a)) \<Longrightarrow>
   raises_no_socket_error (bind m f)"
  unfolding raises_no_socket_error_def bind_def
  by (auto split: prod.splits sum.splits) (metis fst_conv)+

lemma no_socket_seq:
  "raises_no_socket_error m \<Longrightarrow> raises_no_socket_error k \<Longrightarrow> raises_no_socket_error (seq m k)"
  by (simp add: seq_def no_socket_bind)

lemma no_socket_if:
  "raises_no_socket_error a \<Longrightarrow> raises_no_socket_error b \<Longrightarrow>
   raises_no_socket_error (if c then a else b)"
  by simp

lemma get_env_total: "\<exists>env. get_env f = Inr env"
  by (simp add: get_env_def get_env_loop_eq)

lemma set_env_values_total: "\<exists>r. set_env_values f d = Inr r"
  by (simp add: set_env_values_eq Let_def)

lemma no_socket_lift: "(\<And>msg. r \<noteq> Inl (SocketError msg)) \<Longrightarrow> raises_no_socket_error (lift r)"
  by (simp add: raises_no_socket_error_def lift_def)

lemma no_socket_values:
  "split_val v \<noteq> Inl (SocketError msg)"
  "pip_env env \<noteq> Inl (SocketError msg)"
  "database_url sch r \<noteq> Inl (SocketError msg)"
  by (auto simp: split_val_def pip_env_def database_url_def urlunparse_def Let_def
      split: pyval.splits)

lemma no_socket_prims:
  "raises_no_socket_error (ret a)"
  "raises_no_socket_error (emit e)"
  "raises_no_socket_error (check_call ok cmd cwd env pre)"
  "raises_no_socket_error get_env_act"
  "raises_no_socket_error (apt_install pk)"
  "raises_no_socket_error (open_port out p)"
  "raises_no_socket_error (render out src tg ctx renv)"
  "raises_no_socket_error (set_state x)"
  "raises_no_socket_error (remove_state x)"
  "raises_no_socket_error (set_env_values_act d)"
  "raises_no_socket_error (delete_env_value_act k)"
  "raises_no_socket_error (lift (split_val v))"
  "raises_no_socket_error (lift (pip_env env'))"
  "raises_no_socket_error (lift (database_url sch r))"
  "raises_no_socket_error (lift (Inl TypeError))"
  "raises_no_socket_error (lift (Inl IndexError))"
  using get_env_total set_env_values_total
  by (auto simp: raises_no_socket_error_def ret_def emit_def check_call_def get_env_act_def
      apt_install_def open_port_def render_def set_state_def remove_state_def
      set_env_values_act_def delete_env_value_act_def lift_def no_socket_values
      split: prod.splits sum.splits) (metis Inl_Inr_False)+

lemma no_socket_get_user: "raises_no_socket_error (get_user out name)"
  unfolding get_user_def by (intro no_socket_seq no_socket_if no_socket_prims)

lemma no_socket_pip_install: "raises_no_socket_error (pip_install lc cfg out)"
  unfolding pip_install_def Let_def
  by (intro no_socket_seq no_socket_bind no_socket_if no_socket_prims)
     (simp_all add: no_socket_prims split: pyval.split)

lemma no_socket_provision_database: "raises_no_socket_error (provision_database lc out)"
  unfolding provision_database_def Let_def
  by (intro no_socket_seq no_socket_bind no_socket_if no_socket_prims no_socket_get_user)

lemma no_socket_database_phase: "raises_no_socket_error (database_phase lc out)"
  unfolding database_phase_def no_database_def
  by (auto split: option.split
      intro!: no_socket_seq no_socket_bind no_socket_prims no_socket_provision_database)

lemma no_socket_service_phase: "raises_no_socket_error (service_phase lc cfg out)"
  unfolding service_phase_def
  by (intro no_socket_seq no_socket_bind no_socket_if no_socket_prims)

lemma no_socket_provision: "raises_no_socket_error (provision lc cfg out)"
  unfolding provision_def install_phase_def
  by (intro no_socket_seq no_socket_prims no_socket_pip_install no_socket_database_phase
      no_socket_service_phase)

lemma verify_phase_result:
  "fst (verify_phase cfg out s) =
     (if fst (wait_for_service cfg out [0..<max_attempts]) then Inr ()
      else Inl (SocketError ''Service not responding''))"
  "fst (snd (verify_phase cfg out s)) =
     (if fst (wait_for_service cfg out [0..<max_attempts])
      then s\<lparr>flags := insert ''wsgi.available'' (flags s)\<rparr> else s)"
  by (auto simp: verify_phase_def wait_act_def bind_def seq_def emit_def set_state_def lift_def
      split: prod.splits)

subsection \<open>Reading back what was stored\<close>

lemma readlines_nonempty: "cs \<noteq> [] \<Longrightarrow> readlines cs \<noteq> []"
  by (cases cs) (auto split: list.splits)

lemma start_result:
  "fst (start_application_service lc cfg out s) =
     (case fst (provision lc cfg out s) of
        Inl e \<Rightarrow> Inl e
      | Inr u \<Rightarrow> if fst (wait_for_service cfg out [0..<max_attempts]) then Inr ()
                 else Inl (SocketError ''Service not responding''))"
  by (simp add: start_application_service_def seq_def bind_result verify_phase_result
      split: sum.splits)

lemma start_state:
  "fst (snd (start_application_service lc cfg out s)) =
     (case fst (provision lc cfg out s) of
        Inl e \<Rightarrow> fst (snd (provision lc cfg out s))
      | Inr u \<Rightarrow> if fst (wait_for_service cfg out [0..<max_attempts])
                 then (fst (snd (provision lc cfg out s)))
                        \<lparr>flags := insert ''wsgi.available''
                           (flags (fst (snd (provision lc cfg out s))))\<rparr>
                 else fst (snd (provision lc cfg out s)))"
  by (simp add: start_application_service_def seq_def bind_state verify_phase_result
      split: sum.splits)

lemma provision_no_socket_error: "fst (provision lc cfg out s) \<noteq> Inl (SocketError msg)"
  using no_socket_provision [of lc cfg out] by (simp add: raises_no_socket_error_def)

lemma newline_terminated_tl: "newline_terminated (c # cs) \<Longrightarrow> newline_terminated cs"
  by (auto simp: newline_terminated_def split: if_splits)

lemma readlines_unfold:
  "readlines (CHR 0x0A # cs) = [CHR 0x0A] # readlines cs"
  "readlines [CHR 0x0D] = [[CHR 0x0A]]"
  "readlines (CHR 0x0D # CHR 0x0A # ds) = [CHR 0x0A] # readlines ds"
  "d \<noteq> CHR 0x0A \<Longrightarrow> readlines (CHR 0x0D # d # ds) = [CHR 0x0A] # readlines (d # ds)"
  "c \<noteq> CHR 0x0A \<Longrightarrow> c \<noteq> CHR 0x0D \<Longrightarrow> readlines cs = l # ls \<Longrightarrow>
     readlines (c # cs) = (c # l) # ls"
  by simp_all

lemma readlines_terminated:
  "newline_terminated f \<Longrightarrow> l \<in> set (readlines f) \<Longrightarrow> terminated l"
proof (induction "length f" arbitrary: f l rule: less_induct)
  case less
  show ?case
  proof (cases f)
    case Nil
    with less.prems show ?thesis by simp
  next
    case f: (Cons c cs)
    from less.prems(1) have nt: "newline_terminated cs"
      unfolding f by (rule newline_terminated_tl)
    have ih: "terminated l'" if "l' \<in> set (readlines cs)" for l'
      using less.hyps [of cs l'] nt that unfolding f by simp
    consider (lf) "c = CHR 0x0A" | (cr) "c = CHR 0x0D"
      | (other) "c \<noteq> CHR 0x0A" "c \<noteq> CHR 0x0D" by blast
    then show ?thesis
    proof cases
      case lf
      from less.prems(2) have "l = [CHR 0x0A] \<or> l \<in> set (readlines cs)"
        unfolding f lf readlines_unfold(1) by simp
      then show ?thesis using ih terminated_nl by blast
    next
      case cr
      show ?thesis
      proof (cases cs)
        case Nil
        from less.prems(2) show ?thesis
          unfolding f cr Nil readlines_unfold(2) by (simp add: terminated_nl)
      next
        case cs: (Cons d ds)
        show ?thesis
        proof (cases "d = CHR 0x0A")
          case True
          from nt have "newline_terminated ds"
            unfolding cs by (rule newline_terminated_tl)
          then have ihd: "terminated l'" if "l' \<in> set (readlines ds)" for l'
            using less.hyps [of ds l'] that unfolding f cs by simp
          from less.prems(2) have "l = [CHR 0x0A] \<or> l \<in> set (readlines ds)"
            unfolding f cr cs True readlines_unfold(3) by simp
          then show ?thesis using ihd terminated_nl by blast
        next
          case False
          from less.prems(2) have "l = [CHR 0x0A] \<or> l \<in> set (readlines cs)"
            unfolding f cr cs readlines_unfold(4) [OF False] by simp
          then show ?thesis using ih terminated_nl by blast
        qed
      qed
    next
      case other
      from other less.prems(1) have "cs \<noteq> []"
        unfolding f by (auto simp: newline_terminated_def)
      then obtain l0 ls where r: "readlines cs = l0 # ls"
        using readlines_nonempty [of cs] by (cases "readlines cs") auto
      from less.prems(2) have "l = c # l0 \<or> l \<in> set ls"
        unfolding f readlines_unfold(5) [OF other r] by simp
      moreover have "terminated l0" using ih r by simp
      then have "terminated (c # l0)" using other by (simp add: terminated_Cons)
      moreover have "terminated l'" if "l' \<in> set ls" for l' using ih r that by simp
      ultimately show ?thesis by blast
    qed
  qed
qed

lemma lines_ok_all_terminated: "\<forall>l \<in> set ls. terminated l \<Longrightarrow> lines_ok ls"
  by (induction ls) (auto simp: lines_ok_Cons)

lemma get_env_loop_lookup:
  "\<forall>l \<in> set ls. key_of l = Some k \<longrightarrow> val_of l = v \<Longrightarrow>
   get_env_loop ls acc = Inr env \<Longrightarrow>
   map_of env k = (if \<exists>l \<in> set ls. key_of l = Some k then Some v else map_of acc k)"
proof (induction ls arbitrary: acc)
  case Nil
  then show ?case by simp
next
  case (Cons l ls)
  show ?case
  proof (cases "re_match_variable l")
    case True
    let ?k = "takeWhile (\<lambda>c. c \<noteq> CHR ''='') l"
    from True have kl: "key_of l = Some ?k" by (simp add: key_of_def)
    from True Cons.prems(2)
    have "get_env_loop ls (AList.update ?k (val_of l) acc) = Inr env"
      by (simp add: split_strip_matched val_of_def)
    from Cons.IH [OF _ this] Cons.prems(1)
    have "map_of env k = (if \<exists>l \<in> set ls. key_of l = Some k then Some v
        else map_of (AList.update ?k (val_of l) acc) k)" by simp
    then show ?thesis using kl Cons.prems(1) by (auto simp: update_conv')
  next
    case False
    then have kl: "key_of l = None" by (simp add: key_of_def)
    from False Cons.prems(2) have "get_env_loop ls acc = Inr env" by simp
    from Cons.IH [OF _ this] Cons.prems(1) kl show ?thesis by simp
  qed
qed

lemma get_env_after_store:
  assumes nt: "newline_terminated f"
    and tl: "terminated (new_line k v)"
    and kl: "key_of (new_line k v) = Some k"
    and vl: "val_of (new_line k v) = v"
    and st: "set_env_values f [(k, v)] = Inr (f', ls')"
  shows "\<exists>env. get_env f' = Inr env \<and> map_of env k = Some v"
proof -
  define ls where "ls = readlines f"
  define app where "app = (if \<exists>l \<in> set ls. key_of l = Some k then [] else [new_line k v])"
  define env' where "env' = map (rewritten [(k, v)]) ls @ app"
  have rw: "rewritten [(k, v)] l = (if key_of l = Some k then new_line k v else l)" for l
    by (auto simp: rewritten_def split: option.splits)
  have "set_env_values f [(k, v)] = Inr (concat env', env')"
    unfolding set_env_values_eq Let_def env'_def app_def ls_def by auto
  with st have f': "f' = concat env'" by auto
  have mem: "l = new_line k v \<or> (l \<in> set ls \<and> key_of l \<noteq> Some k)" if "l \<in> set env'" for l
  proof -
    from that consider "l \<in> set app" | l0 where "l0 \<in> set ls" "l = rewritten [(k, v)] l0"
      unfolding env'_def by auto
    then show ?thesis
    proof cases
      case 1
      then show ?thesis unfolding app_def by (simp split: if_splits)
    next
      case 2
      then show ?thesis unfolding rw by (cases "key_of l0 = Some k") simp_all
    qed
  qed
  have t: "\<forall>l \<in> set env'. terminated l"
    using mem readlines_terminated [OF nt] tl unfolding ls_def by blast
  then have r: "readlines (concat env') = env'"
    by (intro readlines_concat lines_ok_all_terminated)
  obtain env where e: "get_env f' = Inr env"
    using get_env_total by blast
  then have l: "get_env_loop env' [] = Inr env" by (simp add: get_env_def f' r)
  have a: "\<forall>l \<in> set env'. key_of l = Some k \<longrightarrow> val_of l = v"
    using mem vl by blast
  have "new_line k v \<in> set env'"
  proof (cases "\<exists>l \<in> set ls. key_of l = Some k")
    case True
    then obtain l where l: "l \<in> set ls" "key_of l = Some k" by blast
    then have "rewritten [(k, v)] l = new_line k v" by (simp add: rw)
    with l(1) have "new_line k v \<in> set (map (rewritten [(k, v)]) ls)"
      by (metis image_eqI set_map)
    then show ?thesis unfolding env'_def by simp
  next
    case False
    then show ?thesis unfolding env'_def app_def by simp
  qed
  with kl have b: "\<exists>l \<in> set env'. key_of l = Some k" by blast
  from get_env_loop_lookup [OF a l] b have "map_of env k = Some v" by simp
  with e show ?thesis by blast
qed

subsection \<open>The two flags that a pass clears\<close>

lemma seq_assoc: "seq (seq a b) c = seq a (seq b c)"
  by (auto simp: seq_def bind_def fun_eq_iff split: prod.splits sum.splits)

lemma keeps_unset_set_state: "x \<noteq> f \<Longrightarrow> stable (keeps_unset x) (set_state f)"
  by (simp add: stable_def keeps_unset_def set_state_def)

lemma keeps_unset_unchanged:
  "stable (keeps_unset x) (set_env_values_act d)"
  "stable (keeps_unset x) (delete_env_value_act k)"
  "stable (keeps_unset x) (emit e)"
  "stable (keeps_unset x) (lift r)"
  "stable (keeps_unset x) (pip_install lc cfg out)"
  "stable (keeps_unset x) (provision_database lc out)"
  "stable (keeps_unset x) (service_phase lc cfg out)"
  "stable (keeps_unset x) (wait_act cfg out)"
  by (auto simp: stable_def keeps_unset_def set_env_values_act_def
      delete_env_value_act_def same_state unchanged split: sum.splits prod.splits)

lemma keeps_unset_database_phase_any:
  "stable (keeps_unset x) (database_phase lc out)"
  unfolding database_phase_def no_database_def
  by (auto split: option.split
      intro!: stable_seq(2) keeps_unset_bind keeps_unset_unchanged)

lemma keeps_unset_source_verify_phase:
  "stable (keeps_unset ''wsgi.source.available'') (verify_phase cfg out)"
  unfolding verify_phase_def
  by (intro keeps_unset_bind stable_if stable_seq(2) keeps_unset_unchanged
      keeps_unset_set_state) simp

lemma start_decompose:
  "start_application_service lc cfg out s =
     (case seq (emit (StatusSet ''maintenance'' ''[wsgi] Installing application dependencies''))
             (seq (pip_install lc cfg out)
             (seq (set_state ''wsgi.ready'')
             (seq (database_phase lc out)
             (seq (service_phase lc cfg out) (verify_phase cfg out)))))
             (s\<lparr>flags := flags s - {''wsgi.source.available''} - {''wsgi.available''}\<rparr>) of
        (r, s', t) \<Rightarrow>
          (r, s', RemoveState ''wsgi.source.available'' # RemoveState ''wsgi.available'' # t))"
proof -
  have "start_application_service lc cfg out =
      seq (remove_state ''wsgi.source.available'')
     (seq (remove_state ''wsgi.available'')
     (seq (emit (StatusSet ''maintenance'' ''[wsgi] Installing application dependencies''))
     (seq (pip_install lc cfg out)
     (seq (set_state ''wsgi.ready'')
     (seq (database_phase lc out)
     (seq (service_phase lc cfg out) (verify_phase cfg out)))))))"
    by (simp add: start_application_service_def provision_def install_phase_def seq_assoc)
  then show ?thesis
    by (simp add: seq_def [of "remove_state x" for x] bind_def remove_state_def
        split: prod.splits)
qed

lemma rest_keeps_source_unset:
  "stable (keeps_unset ''wsgi.source.available'')
     (seq (emit (StatusSet ''maintenance'' ''[wsgi] Installing application dependencies''))
     (seq (pip_install lc cfg out)
     (seq (set_state ''wsgi.ready'')
     (seq (database_phase lc out)
     (seq (service_phase lc cfg out) (verify_phase cfg out))))))"
  by (intro stable_seq(2) keeps_unset_unchanged keeps_unset_set_state
      keeps_unset_database_phase_any keeps_unset_source_verify_phase) simp

lemma start_source_unavailable:
  "''wsgi.source.available'' \<notin> flags (fst (snd (start_application_service lc cfg out s)))"
proof -
  let ?s0 = "s\<lparr>flags := flags s - {''wsgi.source.available''} - {''wsgi.available''}\<rparr>"
  let ?rest = "seq (emit (StatusSet ''maintenance''
        ''[wsgi] Installing application dependencies''))
     (seq (pip_install lc cfg out)
     (seq (set_state ''wsgi.ready'')
     (seq (database_phase lc out)
     (seq (service_phase lc cfg out) (verify_phase cfg out)))))"
  have 1: "''wsgi.source.available'' \<notin> flags ?s0" by simp
  have 2: "fst (snd (start_application_service lc cfg out s)) = fst (snd (?rest ?s0))"
    unfolding start_decompose by (simp split: prod.splits)
  from rest_keeps_source_unset [of lc cfg out]
  have "''wsgi.source.available'' \<notin> flags ?s0 \<longrightarrow>
      ''wsgi.source.available'' \<notin> flags (fst (snd (?rest ?s0)))"
    unfolding stable_def keeps_unset_def by (rule spec)
  with 1 show ?thesis unfolding 2 by blast
qed

lemma start_available_iff:
  "(''wsgi.available'' \<in> flags (fst (snd (start_application_service lc cfg out s)))) =
   (fst (start_application_service lc cfg out s) = Inr ())"
  using provision_unavailable [of lc cfg out s]
  by (cases "fst (provision lc cfg out s)";
      cases "fst (wait_for_service cfg out [0..<max_attempts])")
     (simp_all add: start_result start_state)

lemma start_from_cleared:
  "start_application_service lc cfg out
     (s\<lparr>flags := flags s - {''wsgi.source.available'', ''wsgi.available''}\<rparr>) =
   start_application_service lc cfg out s"
proof -
  have "flags s - {''wsgi.source.available'', ''wsgi.available''} -
      {''wsgi.source.available''} - {''wsgi.available''} =
      flags s - {''wsgi.source.available''} - {''wsgi.available''}" by auto
  then show ?thesis unfolding start_decompose by simp
qed

subsection \<open>The lines written are the lines read back\<close>





subsection \<open>The environment file after the pass\<close>

lemma keeps_env_prims:
  "stable keeps_env (remove_state x)"
  "stable keeps_env (set_state x)"
  "stable keeps_env (emit e)"
  "stable keeps_env (pip_install lc cfg out)"
  "stable keeps_env (service_phase lc cfg out)"
  "stable keeps_env (verify_phase cfg' out')"
  by (auto simp: stable_def keeps_env_def remove_state_def set_state_def same_state unchanged
      verify_phase_result)

lemma keeps_env_install_phase: "stable keeps_env (install_phase lc cfg out)"
  unfolding install_phase_def by (intro stable_seq(3) keeps_env_prims)

lemma env_after_seq:
  "stable keeps_env k \<Longrightarrow> env_text (fst (snd (seq m k s))) = env_text (fst (snd (m s)))"
  by (auto simp: seq_def bind_state stable_def keeps_env_def split: sum.splits)

lemma env_after_start:
  assumes "fst (install_phase lc cfg out s) = Inr ()"
  shows "\<exists>s1. env_text s1 = env_text s \<and>
    env_text (fst (snd (start_application_service lc cfg out s))) =
      env_text (fst (snd (database_phase lc out s1)))"
proof -
  let ?s1 = "fst (snd (install_phase lc cfg out s))"
  have 1: "env_text ?s1 = env_text s"
    using keeps_env_install_phase [of lc cfg out] by (simp add: stable_def keeps_env_def)
  have "env_text (fst (snd (start_application_service lc cfg out s))) =
      env_text (fst (snd (provision lc cfg out s)))"
    unfolding start_application_service_def by (intro env_after_seq keeps_env_prims)
  also have "fst (snd (provision lc cfg out s)) =
      fst (snd (seq (database_phase lc out) (service_phase lc cfg out) ?s1))"
    unfolding provision_def
    using seq_Inr [of "install_phase lc cfg out" s
        "seq (database_phase lc out) (service_phase lc cfg out)", OF assms] by simp
  also have "env_text \<dots> = env_text (fst (snd (database_phase lc out ?s1)))"
    by (intro env_after_seq keeps_env_prims)
  finally show ?thesis using 1 by blast
qed

lemma prim_proj:
  "fst (emit e s) = Inr ()" "fst (snd (emit e s)) = s"
  "fst (lift r s) = r" "fst (snd (lift r s)) = s"
  by (simp_all add: emit_def lift_def)

lemma database_phase_store:
  assumes "resolve_relation (postgres_relations out) (mongo_relations out) = Some (r, sch)"
    and "r \<noteq> []" and "database_url sch r = Inr url"
    and "set_env_values (env_text s) [(''DATABASE_URL'', url)] = Inr (f', ls)"
  shows "env_text (fst (snd (database_phase lc out s))) = f'"
  using assms
  by (simp add: database_phase_def seq_def bind_state bind_result prim_proj unchanged
      set_env_values_act_def)

lemma database_phase_delete:
  assumes "resolve_relation (postgres_relations out) (mongo_relations out) = None"
  shows "env_text (fst (snd (database_phase lc out s))) =
    fst (delete_env_value (env_text s) ''DATABASE_URL'')"
  using assms
  by (simp add: database_phase_def no_database_def seq_def bind_state bind_result prim_proj
      delete_env_value_act_def split: prod.splits)

lemma database_url_total: "\<exists>url. database_url sch r = Inr url"
  by (auto simp: database_url_def urlunparse_def db_host_of_def dict_get_def py_or_def
      build_url_host_def Let_def split: pyval.splits option.splits)

subsection \<open>Unfolding on sample inputs\<close>

lemmas run_defs = provision_def install_phase_def database_phase_def service_phase_def
  verify_phase_def start_application_service_def pip_install_def provision_database_def
  no_database_def wait_act_def seq_def bind_def emit_def lift_def ret_def remove_state_def
  set_state_def check_call_def get_env_act_def set_env_values_act_def delete_env_value_act_def
  open_port_def render_def get_user_def

lemmas env_defs = get_env_def set_env_values_def delete_env_value_def writelines_def
  line_key_def re_match_variable_def is_letter_us_def is_alnum_us_def is_space_def strip_def
  split1_def new_line_def

lemmas sample_defs = default_layer_def sample_config_def quiet_host_def ready_state_def
  postgres_host_def max_attempts_def service_name_def service_file_def env_file_def

subsection \<open>Storing and deleting the connection URL\<close>

lemma get_env_after_delete:
  "\<exists>env. get_env (fst (delete_env_value f k)) = Inr env \<and> map_of env k = None"
proof -
  let ?kept = "filter (\<lambda>l. \<not> prefix (k @ ''='') l) (readlines f)"
  have d: "delete_env_value f k = (concat ?kept, ?kept)"
    by (simp add: delete_env_value_def delete_env_scan_eq writelines_def Let_def)
  have r: "readlines (concat ?kept) = ?kept"
    by (intro readlines_concat lines_ok_filter lines_ok_readlines)
  obtain env where e: "get_env (concat ?kept) = Inr env"
    using get_env_total by blast
  then have "get_env_loop ?kept [] = Inr env" by (simp add: get_env_def r)
  from get_env_loop_keys [OF this]
  have "fst ` set env \<subseteq> {k. \<exists>l \<in> set ?kept. key_of l = Some k}" by simp
  then have "k \<notin> fst ` set env" by (auto dest: key_of_prefix)
  then have "map_of env k = None" by (simp add: map_of_eq_None_iff)
  with d e show ?thesis by simp
qed

lemma start_stores_url:
  assumes i: "fst (install_phase lc cfg out s) = Inr ()"
    and res: "resolve_relation (postgres_relations out) (mongo_relations out) = Some (r, sch)"
    and ne: "r \<noteq> []"
  shows "\<exists>url ls. database_url sch r = Inr url \<and>
    set_env_values (env_text s) [(''DATABASE_URL'', url)] =
      Inr (env_text (fst (snd (start_application_service lc cfg out s))), ls)"
proof -
  obtain url where u: "database_url sch r = Inr url"
    using database_url_total by blast
  obtain s1 where s1: "env_text s1 = env_text s"
    "env_text (fst (snd (start_application_service lc cfg out s))) =
      env_text (fst (snd (database_phase lc out s1)))"
    using env_after_start [OF i] by blast
  obtain f' ls where st: "set_env_values (env_text s) [(''DATABASE_URL'', url)] = Inr (f', ls)"
    using set_env_values_total [of "env_text s" "[(''DATABASE_URL'', url)]"] by (cases) auto
  have "env_text (fst (snd (start_application_service lc cfg out s))) = f'"
    unfolding s1(2) using database_phase_store [OF res ne u, of s1 f' ls lc] st s1(1) by simp
  with u st show ?thesis by simp
qed

subsection \<open>Declarations in the configuration\<close>

lemma variables_from_string_ok:
  assumes "\<forall>t \<in> set (split_ws s). count_list t CHR ''='' = 1"
  shows "\<exists>vars. variables_from_string s = Inr vars \<and> distinct (map fst vars) \<and>
    map_of vars = map_of (rev (map decl_pair (split_ws s)))"
proof -
  let ?vars = "fold (\<lambda>t. AList.update (fst (decl_pair t)) (snd (decl_pair t))) (split_ws s) []"
  have "variables_from_string s = Inr ?vars"
    unfolding variables_from_string_def by (rule variables_loop_ok [OF assms])
  moreover have "distinct (map fst ?vars)" by (rule distinct_fold_update) simp
  moreover have "map_of ?vars = map_of (rev (map decl_pair (split_ws s)))"
    by (simp add: map_of_fold_update)
  ultimately show ?thesis by blast
qed

lemma configure_aborts:
  assumes "cfg_environment_variables cfg = PStr s'" "variables_from_string s' = Inl ValueError"
  shows "(\<exists>e. fst (configure_dependencies cfg st) = Inl e)"
    and "fst (snd (configure_dependencies cfg st)) = st"
    and "(cfg_apt_dependencies cfg = PNone \<or> (\<exists>d. cfg_apt_dependencies cfg = PStr d)) \<longrightarrow>
      fst (configure_dependencies cfg st) = Inl ValueError"
  using assms
  by (auto simp: configure_dependencies_def seq_def bind_result bind_state prim_proj same_state
      apt_install_def variables_from_val_def split_val_def py_or_def
      split: sum.splits pyval.splits)

section \<open>The health check (C1)\<close>

text \<open>
  C1, as amended. The loop of \<^verbatim>\<open>start_application_service\<close> makes at most
  \<open>max_attempts = 10\<close> attempts and sleeps 6 seconds after every attempt that fails.
  If the check (service running and port open) holds first at attempt \<open>k\<close>, with
  \<open>1 \<le> k \<le> max_attempts\<close>, the loop succeeds after \<open>k\<close> evaluations and exactly
  \<open>k - 1\<close> sleeps. If the check fails at every attempt, the loop fails after exactly
  \<open>max_attempts\<close> evaluations and exactly \<open>max_attempts\<close> sleeps: the last failed
  attempt is followed by a sleep too.
\<close>

theorem health_loop_sleeps:
  "max_attempts = 10 \<and>
   (1 \<le> k \<and> k \<le> max_attempts \<and>
    (\<forall>a < k - 1. \<not> (service_up out a \<and> port_open out a)) \<and>
    service_up out (k - 1) \<and> port_open out (k - 1) \<longrightarrow>
      fst (wait_for_service cfg out [0..<max_attempts]) = True \<and>
      slept (snd (wait_for_service cfg out [0..<max_attempts])) = replicate (k - 1) 6 \<and>
      asked_running (snd (wait_for_service cfg out [0..<max_attempts])) = k) \<and>
   ((\<forall>a < max_attempts. \<not> (service_up out' a \<and> port_open out' a)) \<longrightarrow>
      fst (wait_for_service cfg out' [0..<max_attempts]) = False \<and>
      slept (snd (wait_for_service cfg out' [0..<max_attempts])) = replicate max_attempts 6 \<and>
      asked_running (snd (wait_for_service cfg out' [0..<max_attempts])) = max_attempts)"
proof (intro conjI impI)
  show "max_attempts = 10" by (simp add: max_attempts_def)
next
  assume h: "1 \<le> k \<and> k \<le> max_attempts \<and>
    (\<forall>a < k - 1. \<not> (service_up out a \<and> port_open out a)) \<and>
    service_up out (k - 1) \<and> port_open out (k - 1)"
  then have u: "[0..<max_attempts] = [0..<k - 1] @ (k - 1) # [k..<max_attempts]"
    by (intro upt_split) auto
  from h have f: "\<forall>a \<in> set [0..<k - 1]. \<not> (service_up out a \<and> port_open out a)" by simp
  from h have g: "service_up out (k - 1) \<and> port_open out (k - 1)" by simp
  from h have k: "Suc (k - 1) = k" by simp
  note w = wait_first_success [OF f g, of cfg "[k..<max_attempts]", folded u]
  show "fst (wait_for_service cfg out [0..<max_attempts]) = True" using w by simp
  show "slept (snd (wait_for_service cfg out [0..<max_attempts])) = replicate (k - 1) 6"
    using w by simp
  show "asked_running (snd (wait_for_service cfg out [0..<max_attempts])) = k"
    using w k by simp
next
  assume h: "\<forall>a < max_attempts. \<not> (service_up out' a \<and> port_open out' a)"
  then have f: "\<forall>a \<in> set [0..<max_attempts]. \<not> (service_up out' a \<and> port_open out' a)" by simp
  note w = wait_all_fail [OF f, of cfg]
  show "fst (wait_for_service cfg out' [0..<max_attempts]) = False" using w by simp
  show "slept (snd (wait_for_service cfg out' [0..<max_attempts])) = replicate max_attempts 6"
    using w by simp
  show "asked_running (snd (wait_for_service cfg out' [0..<max_attempts])) = max_attempts"
    using w by simp
qed

theorem health_loop_sleeps_witness:
  "fst (wait_for_service sample_config postgres_host [0..<max_attempts]) = True \<and>
   slept (snd (wait_for_service sample_config postgres_host [0..<max_attempts])) =
     replicate 2 6 \<and>
   asked_running (snd (wait_for_service sample_config postgres_host [0..<max_attempts])) = 3 \<and>
   fst (wait_for_service sample_config quiet_host [0..<max_attempts]) = False \<and>
   slept (snd (wait_for_service sample_config quiet_host [0..<max_attempts])) =
     replicate 10 6 \<and>
   asked_running (snd (wait_for_service sample_config quiet_host [0..<max_attempts])) = 10"
  using health_loop_sleeps [of 3 postgres_host sample_config quiet_host]
  by (simp add: postgres_host_def quiet_host_def max_attempts_def)

text \<open>
  The claim as stated fails: on a host whose port never opens the ten failed attempts
  are followed by ten sleeps, not nine.
\<close>

theorem health_loop_final_sleep_counterexample:
  "map (port_open quiet_host) [0..<max_attempts] =
     [False, False, False, False, False, False, False, False, False, False] \<and>
   fst (wait_for_service sample_config quiet_host [0..<max_attempts]) = False \<and>
   asked_running (snd (wait_for_service sample_config quiet_host [0..<max_attempts])) = 10 \<and>
   slept (snd (wait_for_service sample_config quiet_host [0..<max_attempts])) =
     [6, 6, 6, 6, 6, 6, 6, 6, 6, 6] \<and>
   length (slept (snd (wait_for_service sample_config quiet_host [0..<max_attempts]))) \<noteq>
     max_attempts - 1"
  by (simp add: max_attempts_def upt_rec quiet_host_def asked_running_def service_name_def)

section \<open>The flags (C2)\<close>

text \<open>
  C2. Every run of \<^verbatim>\<open>start_application_service\<close> clears the flags
  \<^verbatim>\<open>wsgi.source.available\<close> and \<^verbatim>\<open>wsgi.available\<close> as its first action: the two
  removals are the first two effects of the run; \<^verbatim>\<open>wsgi.source.available\<close> is not set
  when the run ends, however it ends; \<^verbatim>\<open>wsgi.available\<close> is not set when the
  provisioning part of the run ends, and is set at the end of the run exactly when the run
  succeeds, the final check having set it anew; and the run from a state does what the run
  from that state without the two flags does. No handler clears any other flag: a flag other
  than these two that is set before a handler runs is set after it, however the handler
  ends.
\<close>

theorem provisioning_clears_then_monotonic:
  "(\<exists>rest. snd (snd (start_application_service lc cfg out s)) =
      RemoveState ''wsgi.source.available'' # RemoveState ''wsgi.available'' # rest) \<and>
   (\<forall>h f. f \<in> flags s \<and> f \<noteq> ''wsgi.source.available'' \<and> f \<noteq> ''wsgi.available'' \<longrightarrow>
      f \<in> flags (fst (snd (run_handler lc cfg out h s)))) \<and>
   ''wsgi.source.available'' \<notin> flags (fst (snd (start_application_service lc cfg out s))) \<and>
   ''wsgi.available'' \<notin> flags (fst (snd (provision lc cfg out s))) \<and>
   ((''wsgi.available'' \<in> flags (fst (snd (start_application_service lc cfg out s)))) =
    (fst (start_application_service lc cfg out s) = Inr ())) \<and>
   start_application_service lc cfg out
     (s\<lparr>flags := flags s - {''wsgi.source.available'', ''wsgi.available''}\<rparr>) =
   start_application_service lc cfg out s"
proof -
  have c1: "\<exists>rest. snd (snd (start_application_service lc cfg out s)) =
      RemoveState ''wsgi.source.available'' # RemoveState ''wsgi.available'' # rest"
    by (rule start_trace_head)
  have c2: "\<forall>h f. f \<in> flags s \<and> f \<noteq> ''wsgi.source.available'' \<and> f \<noteq> ''wsgi.available'' \<longrightarrow>
      f \<in> flags (fst (snd (run_handler lc cfg out h s)))"
  proof (intro allI impI)
    fix h f
    assume "f \<in> flags s \<and> f \<noteq> ''wsgi.source.available'' \<and> f \<noteq> ''wsgi.available''"
    then show "f \<in> flags (fst (snd (run_handler lc cfg out h s)))"
      using keeps_flags_handler [of lc cfg out h]
      unfolding stable_def keeps_flags_def by auto
  qed
  note c3 = start_source_unavailable [of lc cfg out s]
  note c4 = provision_unavailable [of lc cfg out s]
  note c5 = start_available_iff [of lc cfg out s]
  note c6 = start_from_cleared [of lc cfg out s]
  show ?thesis
    by (rule conjI [OF c1 conjI [OF c2 conjI [OF c3 conjI [OF c4 conjI [OF c5 c6]]]]])
qed

theorem provisioning_clears_then_monotonic_witness:
  "take 2 (snd (snd (start_application_service default_layer sample_config quiet_host
      ready_state))) =
     [RemoveState ''wsgi.source.available'', RemoveState ''wsgi.available''] \<and>
   ''wsgi.configured'' \<in> flags ready_state \<and>
   ''wsgi.configured'' \<in> flags (fst (snd (run_handler default_layer sample_config quiet_host
      StartApplicationService ready_state))) \<and>
   ''wsgi.source.available'' \<in> flags ready_state \<and>
   ''wsgi.available'' \<in> flags ready_state \<and>
   ''wsgi.source.available'' \<notin> flags (fst (snd (start_application_service default_layer
      sample_config quiet_host ready_state))) \<and>
   ''wsgi.available'' \<notin> flags (fst (snd (start_application_service default_layer
      sample_config quiet_host ready_state))) \<and>
   fst (start_application_service default_layer sample_config postgres_host ready_state) =
     Inr () \<and>
   ''wsgi.available'' \<in> flags (fst (snd (start_application_service default_layer
      sample_config postgres_host ready_state))) \<and>
   ''wsgi.source.available'' \<notin> flags (fst (snd (start_application_service default_layer
      sample_config postgres_host ready_state)))"
proof -
  note c = provisioning_clears_then_monotonic [of default_layer sample_config quiet_host ready_state]
  from c obtain rest where
    "snd (snd (start_application_service default_layer sample_config quiet_host ready_state)) =
       RemoveState ''wsgi.source.available'' # RemoveState ''wsgi.available'' # rest"
    by blast
  then have 1: "take 2 (snd (snd (start_application_service default_layer sample_config
      quiet_host ready_state))) =
     [RemoveState ''wsgi.source.available'', RemoveState ''wsgi.available'']"
    by simp
  have 2: "''wsgi.configured'' \<in> flags ready_state \<and>
      ''wsgi.configured'' \<noteq> ''wsgi.source.available'' \<and>
      ''wsgi.configured'' \<noteq> ''wsgi.available''"
    by (simp add: ready_state_def)
  from c have "\<forall>h f. f \<in> flags ready_state \<and> f \<noteq> ''wsgi.source.available'' \<and>
      f \<noteq> ''wsgi.available'' \<longrightarrow>
      f \<in> flags (fst (snd (run_handler default_layer sample_config quiet_host h ready_state)))"
    by blast
  with 2 have 3: "''wsgi.configured'' \<in> flags (fst (snd (run_handler default_layer
      sample_config quiet_host StartApplicationService ready_state)))"
    by blast
  have 4: "''wsgi.source.available'' \<in> flags ready_state \<and>
      ''wsgi.available'' \<in> flags ready_state"
    by (simp add: ready_state_def)
  from c have 5: "''wsgi.source.available'' \<notin> flags (fst (snd (start_application_service
      default_layer sample_config quiet_host ready_state)))"
    by blast
  have "fst (start_application_service default_layer sample_config quiet_host ready_state) \<noteq>
      Inr ()"
    by (simp add: run_defs env_defs sample_defs upt_rec)
  with c have 6: "''wsgi.available'' \<notin> flags (fst (snd (start_application_service
      default_layer sample_config quiet_host ready_state)))"
    by blast
  have 7: "fst (start_application_service default_layer sample_config postgres_host
        ready_state) = Inr () \<and>
      ''wsgi.available'' \<in> flags (fst (snd (start_application_service default_layer
        sample_config postgres_host ready_state))) \<and>
      ''wsgi.source.available'' \<notin> flags (fst (snd (start_application_service default_layer
        sample_config postgres_host ready_state)))"
    by (simp add: run_defs env_defs sample_defs upt_rec database_url_def db_host_of_def
      dict_get_def py_or_def build_url_host_def urlunparse_def urlunsplit_def) 
  from 1 2 3 4 5 6 7 show ?thesis by blast
qed

section \<open>The service does not respond (C3)\<close>

text \<open>
  C3. If everything before the final check completes and the check (service running and
  port open) fails at every attempt, the pass raises
  \<^verbatim>\<open>socket.error('Service not responding')\<close> and ends with \<^verbatim>\<open>wsgi.available\<close>
  unset. Whenever the pass ends in an exception, \<^verbatim>\<open>wsgi.available\<close> is unset. The
  pass ends in a \<^verbatim>\<open>socket.error\<close> only in this way, after everything before the
  final check has completed, and the error differs from every failure of a command
  (\<^verbatim>\<open>CalledProcessError\<close>).
\<close>

theorem service_not_responding:
  "(fst (provision lc cfg out s) = Inr () \<and>
    (\<forall>a < max_attempts. \<not> (service_up out a \<and> port_open out a)) \<longrightarrow>
      fst (start_application_service lc cfg out s) = Inl (SocketError ''Service not responding'') \<and>
      ''wsgi.available'' \<notin> flags (fst (snd (start_application_service lc cfg out s)))) \<and>
   (\<forall>e. fst (start_application_service lc cfg out s) = Inl e \<longrightarrow>
      ''wsgi.available'' \<notin> flags (fst (snd (start_application_service lc cfg out s)))) \<and>
   (\<forall>msg. fst (start_application_service lc cfg out s) = Inl (SocketError msg) \<longrightarrow>
      msg = ''Service not responding'' \<and> fst (provision lc cfg out s) = Inr () \<and>
      \<not> fst (wait_for_service cfg out [0..<max_attempts])) \<and>
   (\<forall>msg cmd. SocketError msg \<noteq> CalledProcessError cmd)"
proof -
  let ?res = "fst (start_application_service lc cfg out s)"
  let ?fin = "fst (snd (start_application_service lc cfg out s))"
  let ?ok = "fst (wait_for_service cfg out [0..<max_attempts])"
  have w: "\<not> ?ok" if "\<forall>a < max_attempts. \<not> (service_up out a \<and> port_open out a)"
  proof -
    from that have "\<forall>a \<in> set [0..<max_attempts]. \<not> (service_up out a \<and> port_open out a)"
      by simp
    from wait_all_fail [OF this, of cfg] show ?thesis by simp
  qed
  note u = provision_unavailable [of lc cfg out s]
  have c1: "fst (provision lc cfg out s) = Inr () \<and>
      (\<forall>a < max_attempts. \<not> (service_up out a \<and> port_open out a)) \<longrightarrow>
      ?res = Inl (SocketError ''Service not responding'') \<and> ''wsgi.available'' \<notin> flags ?fin"
    using w u by (simp add: start_result start_state)
  have c2: "\<forall>e. ?res = Inl e \<longrightarrow> ''wsgi.available'' \<notin> flags ?fin"
  proof (intro allI impI)
    fix e assume "?res = Inl e"
    then show "''wsgi.available'' \<notin> flags ?fin"
      using u by (cases "fst (provision lc cfg out s)"; cases ?ok)
        (simp_all add: start_result start_state)
  qed
  have c3: "\<forall>msg. ?res = Inl (SocketError msg) \<longrightarrow>
      msg = ''Service not responding'' \<and> fst (provision lc cfg out s) = Inr () \<and> \<not> ?ok"
  proof (intro allI impI)
    fix msg assume "?res = Inl (SocketError msg)"
    then show "msg = ''Service not responding'' \<and> fst (provision lc cfg out s) = Inr () \<and>
        \<not> ?ok"
      using provision_no_socket_error [of lc cfg out s msg]
      by (cases "fst (provision lc cfg out s)"; cases ?ok) (simp_all add: start_result)
  qed
  have c4: "\<forall>msg cmd. SocketError msg \<noteq> CalledProcessError cmd" by simp
  show ?thesis by (rule conjI [OF c1 conjI [OF c2 conjI [OF c3 c4]]])
qed

theorem service_not_responding_witness:
  "fst (provision default_layer sample_config quiet_host ready_state) = Inr () \<and>
   fst (start_application_service default_layer sample_config quiet_host ready_state) =
     Inl (SocketError ''Service not responding'') \<and>
   ''wsgi.available'' \<in> flags ready_state \<and>
   ''wsgi.available'' \<notin> flags (fst (snd (start_application_service default_layer
      sample_config quiet_host ready_state)))"
proof -
  have p: "fst (provision default_layer sample_config quiet_host ready_state) = Inr ()"
    by (simp add: run_defs env_defs sample_defs)
  have q: "\<forall>a < max_attempts. \<not> (service_up quiet_host a \<and> port_open quiet_host a)"
    by (simp add: quiet_host_def)
  have r: "''wsgi.available'' \<in> flags ready_state"
    by (simp add: ready_state_def)
  from service_not_responding [of default_layer sample_config quiet_host ready_state] p q r
  show ?thesis by blast
qed

section \<open>The connection URL that is stored (C4)\<close>

text \<open>
  C4, as amended. With a single Postgres relation that carries host \<open>db1\<close>, port
  \<open>5432\<close> and user \<open>app\<close>, and neither password nor database name, the URL built is
  \<open>postgresql://app@db1:5432\<close>, without a trailing slash: \<^verbatim>\<open>urlunparse\<close> adds no
  slash for an empty path. When the installation of the dependencies completes and the
  environment file is empty or ends with a line terminator, this is the value read back
  under \<^verbatim>\<open>DATABASE_URL\<close> after the pass.
\<close>

theorem database_url_stored:
  "map_of r ''host'' = Some ''db1'' \<and> map_of r ''port'' = Some ''5432'' \<and>
   map_of r ''user'' = Some ''app'' \<and> map_of r ''password'' = None \<and>
   map_of r ''database'' = None \<and>
   postgres_relations out = [r] \<and>
   fst (install_phase lc cfg out s) = Inr () \<and>
   newline_terminated (env_text s) \<longrightarrow>
     database_url ''postgresql'' r = Inr ''postgresql://app@db1:5432'' \<and>
     (\<exists>env. get_env (env_text (fst (snd (start_application_service lc cfg out s)))) = Inr env \<and>
        map_of env ''DATABASE_URL'' = Some ''postgresql://app@db1:5432'')"
proof (intro impI)
  let ?url = "''postgresql://app@db1:5432''"
  assume h: "map_of r ''host'' = Some ''db1'' \<and> map_of r ''port'' = Some ''5432'' \<and>
   map_of r ''user'' = Some ''app'' \<and> map_of r ''password'' = None \<and>
   map_of r ''database'' = None \<and>
   postgres_relations out = [r] \<and>
   fst (install_phase lc cfg out s) = Inr () \<and>
   newline_terminated (env_text s)"
  then have u: "database_url ''postgresql'' r = Inr ?url"
    by (simp add: database_url_def db_host_of_def dict_get_def py_or_def build_url_host_def
        urlunparse_def urlunsplit_def)
  from h have ne: "r \<noteq> []" by auto
  from h have res: "resolve_relation (postgres_relations out) (mongo_relations out) =
      Some (r, ''postgresql'')" by simp
  from h obtain s1 where s1: "env_text s1 = env_text s"
    "env_text (fst (snd (start_application_service lc cfg out s))) =
      env_text (fst (snd (database_phase lc out s1)))"
    using env_after_start [of lc cfg out s] by blast
  obtain f' ls where st: "set_env_values (env_text s) [(''DATABASE_URL'', ?url)] = Inr (f', ls)"
    using set_env_values_total [of "env_text s" "[(''DATABASE_URL'', ?url)]"] by (cases) auto
  have fin: "env_text (fst (snd (start_application_service lc cfg out s))) = f'"
    unfolding s1(2) using database_phase_store [OF res ne u, of s1 f' ls lc] st s1(1) by simp
  have t: "terminated (new_line ''DATABASE_URL'' ?url)"
    unfolding terminated_def new_line_def
    by (rule exI [of _ "''DATABASE_URL=postgresql://app@db1:5432''"]) simp
  have k: "key_of (new_line ''DATABASE_URL'' ?url) = Some ''DATABASE_URL''"
    by (simp add: key_of_def new_line_def re_match_variable_def is_letter_us_def
        is_alnum_us_def)
  have v: "val_of (new_line ''DATABASE_URL'' ?url) = ?url"
    by (simp add: val_of_def new_line_def strip_def is_space_def)
  from h have nt: "newline_terminated (env_text s)" by simp
  from get_env_after_store [OF nt t k v st] fin u
  show "database_url ''postgresql'' r = Inr ?url \<and>
     (\<exists>env. get_env (env_text (fst (snd (start_application_service lc cfg out s)))) = Inr env \<and>
        map_of env ''DATABASE_URL'' = Some ?url)" by simp
qed

theorem database_url_stored_witness:
  "newline_terminated (env_text ready_state) \<and>
   fst (install_phase default_layer sample_config postgres_host ready_state) = Inr () \<and>
   (\<exists>env. get_env (env_text (fst (snd (start_application_service default_layer sample_config
        postgres_host ready_state)))) = Inr env \<and>
      map_of env ''DATABASE_URL'' = Some ''postgresql://app@db1:5432'')"
proof -
  have 1: "newline_terminated (env_text ready_state)"
    by (simp add: newline_terminated_def ready_state_def)
  have 2: "fst (install_phase default_layer sample_config postgres_host ready_state) = Inr ()"
    by (simp add: run_defs env_defs sample_defs)
  have 3: "postgres_relations postgres_host =
      [[(''host'', ''db1''), (''port'', ''5432''), (''user'', ''app'')]]"
    by (simp add: postgres_host_def)
  from database_url_stored [of "[(''host'', ''db1''), (''port'', ''5432''), (''user'', ''app'')]"
      postgres_host default_layer sample_config ready_state] 1 2 3
  show ?thesis by simp
qed

text \<open>
  The claim as stated fails: after the pass on such a host the value read back is
  \<open>postgresql://app@db1:5432\<close>, which is not \<open>postgresql://app@db1:5432/\<close>.
\<close>

theorem database_url_trailing_slash_counterexample:
  "postgres_relations postgres_host =
     [[(''host'', ''db1''), (''port'', ''5432''), (''user'', ''app'')]] \<and>
   get_env (env_text (fst (snd (start_application_service default_layer sample_config
      postgres_host ready_state)))) =
     Inr [(''LANG'', ''C''), (''DATABASE_URL'', ''postgresql://app@db1:5432'')] \<and>
   ''postgresql://app@db1:5432'' \<noteq> ''postgresql://app@db1:5432/''"
  by (simp add: run_defs env_defs sample_defs upt_rec database_url_def db_host_of_def
      dict_get_def py_or_def build_url_host_def urlunparse_def urlunsplit_def)

section \<open>The host part of a URL (C5)\<close>

text \<open>
  C5. The presence/absence matrix of \<^verbatim>\<open>build_url_host\<close> for a host name \<open>d\<close>:
  host alone gives \<open>d\<close>; host and a truthy port give \<open>d:port\<close>; with a user name in
  addition \<open>user@d:port\<close>; with a password too \<open>user:password@d:port\<close>. Without a
  truthy user name the password has no influence on the result (it is never emitted),
  and a falsy port (\<^verbatim>\<open>None\<close>, \<^verbatim>\<open>0\<close>, the empty string) gives the same result as
  no port at all. The value is given for every combination: without a truthy user name it
  is \<open>d\<close> for a falsy port and \<open>d:port\<close> for a truthy one, whatever the password; with
  a truthy user name and a falsy port it is \<open>user@d\<close> without a truthy password and
  \<open>user:password@d\<close> with one, so that no \<open>:port\<close> follows the host; in general it is
  the user part (if the user name is truthy), the host and the port part (if the port is
  truthy).
\<close>

theorem build_url_host_matrix:
  "build_url_host (PStr d) PNone PNone PNone = PStr d \<and>
   (truthy port \<longrightarrow>
      build_url_host (PStr d) port PNone PNone = PStr (d @ '':'' @ format_val port)) \<and>
   (truthy port \<and> truthy user \<longrightarrow>
      build_url_host (PStr d) port user PNone =
        PStr (format_val user @ ''@'' @ d @ '':'' @ format_val port)) \<and>
   (truthy port \<and> truthy user \<and> truthy pw \<longrightarrow>
      build_url_host (PStr d) port user pw =
        PStr (format_val user @ '':'' @ format_val pw @ ''@'' @ d @ '':'' @ format_val port)) \<and>
   (\<not> truthy u \<longrightarrow>
      build_url_host (PStr d) p u w = build_url_host (PStr d) p PNone PNone) \<and>
   (\<not> truthy p0 \<longrightarrow>
      build_url_host (PStr d) p0 u0 w0 = build_url_host (PStr d) PNone u0 w0 \<and>
      build_url_host (PStr d) p0 PNone PNone = PStr d) \<and>
   (\<not> truthy p1 \<and> \<not> truthy u1 \<longrightarrow> build_url_host (PStr d) p1 u1 w1 = PStr d) \<and>
   (truthy p2 \<and> \<not> truthy u2 \<longrightarrow>
      build_url_host (PStr d) p2 u2 w2 = PStr (d @ '':'' @ format_val p2)) \<and>
   (\<not> truthy p3 \<and> truthy u3 \<and> \<not> truthy w3 \<longrightarrow>
      build_url_host (PStr d) p3 u3 w3 = PStr (format_val u3 @ ''@'' @ d)) \<and>
   (truthy p4 \<and> truthy u4 \<and> \<not> truthy w4 \<longrightarrow>
      build_url_host (PStr d) p4 u4 w4 =
        PStr (format_val u4 @ ''@'' @ d @ '':'' @ format_val p4)) \<and>
   (\<not> truthy p5 \<and> truthy u5 \<and> truthy w5 \<longrightarrow>
      build_url_host (PStr d) p5 u5 w5 =
        PStr (format_val u5 @ '':'' @ format_val w5 @ ''@'' @ d)) \<and>
   build_url_host (PStr d) pa ua wa =
     PStr ((if truthy ua
            then format_val ua @ (if truthy wa then '':'' @ format_val wa else []) @ ''@''
            else []) @
           d @ (if truthy pa then '':'' @ format_val pa else []))"
  by (simp add: build_url_host_def)

theorem build_url_host_matrix_witness:
  "build_url_host (PStr ''example.com'') PNone PNone PNone = PStr ''example.com'' \<and>
   build_url_host (PStr ''example.com'') (PInt 8080) PNone PNone = PStr ''example.com:8080'' \<and>
   build_url_host (PStr ''example.com'') (PInt 8080) (PStr ''robin'') PNone =
     PStr ''robin@example.com:8080'' \<and>
   build_url_host (PStr ''example.com'') (PInt 8080) (PStr ''robin'') (PStr ''mypassword'') =
     PStr ''robin:mypassword@example.com:8080'' \<and>
   build_url_host (PStr ''example.com'') (PStr ''8080'') (PStr []) (PStr ''mypassword'') =
     PStr ''example.com:8080'' \<and>
   build_url_host (PStr ''example.com'') (PInt 0) (PStr ''robin'') (PStr ''mypassword'') =
     PStr ''robin:mypassword@example.com'' \<and>
   build_url_host (PStr ''example.com'') (PInt 0) PNone PNone = PStr ''example.com'' \<and>
   build_url_host (PStr ''example.com'') (PStr []) PNone (PStr ''mypassword'') =
     PStr ''example.com'' \<and>
   build_url_host (PStr ''example.com'') (PInt 8080) PNone (PStr ''mypassword'') =
     PStr ''example.com:8080'' \<and>
   build_url_host (PStr ''example.com'') PNone (PStr ''robin'') (PStr []) =
     PStr ''robin@example.com'' \<and>
   build_url_host (PStr ''example.com'') (PInt 8080) (PStr ''robin'') (PStr []) =
     PStr ''robin@example.com:8080'' \<and>
   build_url_host (PStr ''example.com'') (PStr []) (PStr ''robin'') (PStr ''mypassword'') =
     PStr ''robin:mypassword@example.com''"
proof -
  note m = build_url_host_matrix [of "''example.com''" "PInt 8080" "PStr ''robin''" "PStr ''mypassword''"
      "PStr []" "PStr ''8080''" "PStr ''mypassword''"
      "PInt 0" "PStr ''robin''" "PStr ''mypassword''"
      "PStr []" PNone "PStr ''mypassword''"
      "PInt 8080" PNone "PStr ''mypassword''"
      PNone "PStr ''robin''" "PStr []"
      "PInt 8080" "PStr ''robin''" "PStr []"
      "PStr []" "PStr ''robin''" "PStr ''mypassword''"
      "PInt 0" "PStr ''robin''" "PStr ''mypassword''"]
  from m show ?thesis
    by (simp add: build_url_host_def show_int_def show_nat.simps digit_char_def)
qed

section \<open>Which relation is used (C6)\<close>

text \<open>
  C6. The first Postgres record is chosen, with scheme \<open>postgresql\<close>, whatever the
  other Postgres and the Mongo records are; without a Postgres record the first Mongo
  record, with scheme \<open>mongodb\<close>; without any record nothing is chosen. In a pass whose
  installation of dependencies completes, the URL of the chosen record (when the record
  is not empty) is written to the environment file under \<^verbatim>\<open>DATABASE_URL\<close>; when
  there is no record, the file after the pass is the result of deleting
  \<^verbatim>\<open>DATABASE_URL\<close>, and reading it yields no such key.
\<close>

theorem database_relation_resolution:
  "resolve_relation (r # rs) ms = Some (r, ''postgresql'') \<and>
   resolve_relation [] (m # ms') = Some (m, ''mongodb'') \<and>
   resolve_relation [] [] = None \<and>
   (postgres_relations outp = p # ps \<and> p \<noteq> [] \<and>
    fst (install_phase lc cfg outp sp) = Inr () \<longrightarrow>
      (\<exists>url ls. database_url ''postgresql'' p = Inr url \<and>
         set_env_values (env_text sp) [(''DATABASE_URL'', url)] =
           Inr (env_text (fst (snd (start_application_service lc cfg outp sp))), ls))) \<and>
   (postgres_relations outm = [] \<and> mongo_relations outm = q # qs \<and> q \<noteq> [] \<and>
    fst (install_phase lc cfg outm sm) = Inr () \<longrightarrow>
      (\<exists>url ls. database_url ''mongodb'' q = Inr url \<and>
         set_env_values (env_text sm) [(''DATABASE_URL'', url)] =
           Inr (env_text (fst (snd (start_application_service lc cfg outm sm))), ls))) \<and>
   (postgres_relations outn = [] \<and> mongo_relations outn = [] \<and>
    fst (install_phase lc cfg outn sn) = Inr () \<longrightarrow>
      env_text (fst (snd (start_application_service lc cfg outn sn))) =
        fst (delete_env_value (env_text sn) ''DATABASE_URL'') \<and>
      (\<exists>env. get_env (env_text (fst (snd (start_application_service lc cfg outn sn)))) = Inr env \<and>
         map_of env ''DATABASE_URL'' = None))"
proof (intro conjI impI)
  show "resolve_relation (r # rs) ms = Some (r, ''postgresql'')" by simp
  show "resolve_relation [] (m # ms') = Some (m, ''mongodb'')" by simp
  show "resolve_relation [] [] = None" by simp
next
  assume h: "postgres_relations outp = p # ps \<and> p \<noteq> [] \<and>
    fst (install_phase lc cfg outp sp) = Inr ()"
  then have "resolve_relation (postgres_relations outp) (mongo_relations outp) =
      Some (p, ''postgresql'')" by simp
  from start_stores_url [OF _ this] h
  show "\<exists>url ls. database_url ''postgresql'' p = Inr url \<and>
         set_env_values (env_text sp) [(''DATABASE_URL'', url)] =
           Inr (env_text (fst (snd (start_application_service lc cfg outp sp))), ls)"
    by simp
next
  assume h: "postgres_relations outm = [] \<and> mongo_relations outm = q # qs \<and> q \<noteq> [] \<and>
    fst (install_phase lc cfg outm sm) = Inr ()"
  then have "resolve_relation (postgres_relations outm) (mongo_relations outm) =
      Some (q, ''mongodb'')" by simp
  from start_stores_url [OF _ this] h
  show "\<exists>url ls. database_url ''mongodb'' q = Inr url \<and>
         set_env_values (env_text sm) [(''DATABASE_URL'', url)] =
           Inr (env_text (fst (snd (start_application_service lc cfg outm sm))), ls)"
    by simp
next
  assume h: "postgres_relations outn = [] \<and> mongo_relations outn = [] \<and>
    fst (install_phase lc cfg outn sn) = Inr ()"
  then have res: "resolve_relation (postgres_relations outn) (mongo_relations outn) = None"
    by simp
  from h obtain s1 where s1: "env_text s1 = env_text sn"
    "env_text (fst (snd (start_application_service lc cfg outn sn))) =
      env_text (fst (snd (database_phase lc outn s1)))"
    using env_after_start [of lc cfg outn sn] by blast
  show e: "env_text (fst (snd (start_application_service lc cfg outn sn))) =
        fst (delete_env_value (env_text sn) ''DATABASE_URL'')"
    unfolding s1(2) database_phase_delete [OF res] s1(1) ..
  show "\<exists>env. get_env (env_text (fst (snd (start_application_service lc cfg outn sn)))) = Inr env \<and>
         map_of env ''DATABASE_URL'' = None"
    unfolding e by (rule get_env_after_delete)
qed

theorem database_relation_resolution_witness:
  "env_text (fst (snd (start_application_service default_layer sample_config postgres_host
      ready_state))) = ''LANG=C\<newline>DATABASE_URL=postgresql://app@db1:5432\<newline>'' \<and>
   env_text (fst (snd (start_application_service default_layer sample_config mongo_host
      ready_state))) = ''LANG=C\<newline>DATABASE_URL=mongodb://mongo1:27017\<newline>'' \<and>
   env_text (fst (snd (start_application_service default_layer sample_config quiet_host
      stale_state))) = ''LANG=C\<newline>''"
  using database_relation_resolution [of "[(''host'', ''db1''), (''port'', ''5432''), (''user'', ''app'')]" "[]" "[]"
      "[(''hostname'', ''mongo1''), (''port'', ''27017'')]" "[]"
      postgres_host "[(''host'', ''db1''), (''port'', ''5432''), (''user'', ''app'')]" "[]"
      default_layer sample_config ready_state
      mongo_host "[(''hostname'', ''mongo1''), (''port'', ''27017'')]" "[]" ready_state
      quiet_host stale_state]
  by (simp add: run_defs env_defs sample_defs mongo_host_def stale_state_def upt_rec
      database_url_def db_host_of_def dict_get_def py_or_def build_url_host_def urlunparse_def
      urlunsplit_def)

section \<open>Merging into the environment file (C7)\<close>




section \<open>Deleting from the environment file (C8)\<close>



section \<open>Demotion (C9)\<close>

text \<open>
  C9. For every entry of the password database, \<^verbatim>\<open>demote\<close> run by a process of
  the root user sets the group id of the process to the entry's \<^verbatim>\<open>pw_uid\<close> and its
  user id to the entry's \<^verbatim>\<open>pw_gid\<close>: the two fields are swapped.
\<close>

theorem demote_swaps_ids:
  "proc_uid p = 0 \<longrightarrow>
     (\<exists>p'. demote user p = Inr p' \<and> proc_gid p' = pw_uid user \<and> proc_uid p' = pw_gid user)"
  by (simp add: demote_def setgid_def setuid_def)

theorem demote_swaps_ids_witness:
  "proc_uid root_process = 0 \<and>
   demote (passwd_entry quiet_host) root_process = Inr \<lparr>proc_uid = 1002, proc_gid = 1001\<rparr>"
  using demote_swaps_ids [of root_process "passwd_entry quiet_host"]
  by (simp add: root_process_def quiet_host_def demote_def setgid_def setuid_def)

section \<open>Declared variables (C10)\<close>

text \<open>
  C10. When every token of the string has exactly one equals sign,
  \<^verbatim>\<open>variables_from_string\<close> returns a dictionary in which each name has the value of
  its last declaration. When some token has no or several equals signs it raises
  \<^verbatim>\<open>ValueError\<close>; \<^verbatim>\<open>configure_dependencies\<close> then ends in an exception and
  leaves flags and environment file as they were. \<^verbatim>\<open>get_env\<close> cuts a matching line
  at its first equals sign only, so that the value may hold further ones.
\<close>

theorem variables_from_string_wellformed:
  "((\<forall>t \<in> set (split_ws s). count_list t CHR ''='' = 1) \<longrightarrow>
      (\<exists>vars. variables_from_string s = Inr vars \<and> distinct (map fst vars) \<and>
         map_of vars = map_of (rev (map decl_pair (split_ws s))))) \<and>
   ((\<exists>t \<in> set (split_ws s'). count_list t CHR ''='' \<noteq> 1) \<longrightarrow>
      variables_from_string s' = Inl ValueError \<and>
      (cfg_environment_variables cfg = PStr s' \<longrightarrow>
         (\<exists>e. fst (configure_dependencies cfg st) = Inl e) \<and>
         fst (snd (configure_dependencies cfg st)) = st \<and>
         (cfg_apt_dependencies cfg = PNone \<or> (\<exists>d. cfg_apt_dependencies cfg = PStr d) \<longrightarrow>
            fst (configure_dependencies cfg st) = Inl ValueError))) \<and>
   (re_match_variable l \<longrightarrow>
      get_env_loop [l] [] =
        Inr [(takeWhile (\<lambda>c. c \<noteq> CHR ''='') l,
              tl (dropWhile (\<lambda>c. c \<noteq> CHR ''='') (strip l)))])"
proof (intro conjI impI)
  assume "\<forall>t \<in> set (split_ws s). count_list t CHR ''='' = 1"
  then show "\<exists>vars. variables_from_string s = Inr vars \<and> distinct (map fst vars) \<and>
         map_of vars = map_of (rev (map decl_pair (split_ws s)))"
    by (rule variables_from_string_ok)
next
  assume b: "\<exists>t \<in> set (split_ws s'). count_list t CHR ''='' \<noteq> 1"
  then show v: "variables_from_string s' = Inl ValueError"
    unfolding variables_from_string_def by (rule variables_loop_bad)
  assume c: "cfg_environment_variables cfg = PStr s'"
  show "\<exists>e. fst (configure_dependencies cfg st) = Inl e"
    by (rule configure_aborts(1) [OF c v])
  show "fst (snd (configure_dependencies cfg st)) = st"
    by (rule configure_aborts(2) [OF c v])
  assume "cfg_apt_dependencies cfg = PNone \<or> (\<exists>d. cfg_apt_dependencies cfg = PStr d)"
  then show "fst (configure_dependencies cfg st) = Inl ValueError"
    using configure_aborts(3) [OF c v] by blast
next
  assume "re_match_variable l"
  then show "get_env_loop [l] [] =
        Inr [(takeWhile (\<lambda>c. c \<noteq> CHR ''='') l,
              tl (dropWhile (\<lambda>c. c \<noteq> CHR ''='') (strip l)))]"
    by (simp add: split_strip_matched)
qed

theorem variables_from_string_wellformed_witness:
  "variables_from_string ''a=1 b=2 a=3'' = Inr [(''a'', ''3''), (''b'', ''2'')] \<and>
   variables_from_string ''A=1 B=x=y'' = Inl ValueError \<and>
   variables_from_string ''A=1 B'' = Inl ValueError \<and>
   configure_dependencies bad_config ready_state =
     (Inl ValueError, ready_state,
      [StatusSet ''maintenance'' ''[wsgi] Installing configured dependencies'',
       AptInstall [],
       Log ''[wsgi] Setting environment variables in /etc/environment'']) \<and>
   get_env_loop [''B=x=y\<newline>''] [] = Inr [(''B'', ''x=y'')]"
  using variables_from_string_wellformed [of "''a=1 b=2 a=3''" "''A=1 B=x=y''" bad_config ready_state
      "''B=x=y\<newline>''"]
    variables_from_string_wellformed [of "''a=1 b=2 a=3''" "''A=1 B''"]
  by (simp add: variables_from_string_def split_ws_def split_on_def is_space_def
      configure_dependencies_def bad_config_def variables_from_val_def split_val_def py_or_def
      apt_install_def run_defs env_defs sample_defs)

end
